theory Spec2Isabelle
  imports Main "HOL-Library.Word" "HOL-Library.Sublist"
begin

unbundle bit_operations_syntax

section \<open>Protocol codec (client.c)\<close>

type_synonym uint8_t = "8 word"
type_synonym int32_t = "32 word"
type_synonym uint32_t = "32 word"

text \<open>
  \<^verbatim>\<open>int32_to_msg(int32_t msg, uint8_t *msg_buff)\<close> fills the four bytes of the target
  buffer.  The shift of the signed \<^verbatim>\<open>msg\<close> is the arithmetic one, and the store into a
  \<^verbatim>\<open>uint8_t\<close> keeps the low eight bits.  The model returns the four bytes written.
\<close>

definition int32_to_msg :: "int32_t \<Rightarrow> uint8_t list" where
  "int32_to_msg msg =
     [ucast (signed_drop_bit 24 msg),
      ucast (signed_drop_bit 16 msg),
      ucast (signed_drop_bit 8 msg),
      ucast (signed_drop_bit 0 msg)]"

text \<open>
  \<^verbatim>\<open>msg_to_int32(uint8_t *msg)\<close> reads \<^verbatim>\<open>msg[0..3]\<close>; each byte is promoted to a
  32-bit integer, shifted and or-ed.
\<close>

definition msg_to_int32 :: "uint8_t list \<Rightarrow> int32_t" where
  "msg_to_int32 msg =
     (push_bit 0 (ucast (msg ! 3)) OR push_bit 8 (ucast (msg ! 2)) OR
      push_bit 16 (ucast (msg ! 1)) OR push_bit 24 (ucast (msg ! 0)))"

section \<open>C strings\<close>

text \<open>
  A \<^verbatim>\<open>char\<close> is an Isabelle \<^typ>\<open>char\<close> (eight bits).  A C string is read up to its
  first NUL: \<open>cstr\<close> is the content that \<^verbatim>\<open>strlen\<close>, \<^verbatim>\<open>strcpy\<close> and \<^verbatim>\<open>strcmp\<close> see.
\<close>

definition NUL :: char where
  "NUL = CHR 0x00"

definition cstr :: "string \<Rightarrow> string" where
  "cstr s = takeWhile (\<lambda>c. c \<noteq> NUL) s"

definition strlen :: "string \<Rightarrow> nat" where
  "strlen s = length (cstr s)"

text \<open>\<^verbatim>\<open>!strcmp(a, b)\<close>: the two strings are equal up to their terminators.\<close>

definition strcmp_eq :: "string \<Rightarrow> string \<Rightarrow> bool" where
  "strcmp_eq a b = (cstr a = cstr b)"

text \<open>
  \<^verbatim>\<open>strcpy(buf + p, src)\<close> on a buffer of known size: the content of \<open>src\<close> and its
  terminator are stored from offset \<open>p\<close>.  A store past the end of the buffer is
  undefined in C; the model returns \<open>None\<close> there.
\<close>

definition strcpy :: "string \<Rightarrow> nat \<Rightarrow> string \<Rightarrow> string option" where
  "strcpy buf p src =
     (let s = cstr src in
      if p + length s + 1 \<le> length buf
      then Some (take p buf @ s @ [NUL] @ drop (p + length s + 1) buf)
      else None)"

section \<open>The send loop (client.c, send_all)\<close>

text \<open>
  What a call into the system gives back: it returned a value, it is still waiting
  for the environment (the scripted answers of the environment ran out), or the
  environment answered outside the contract of the system call.
\<close>

datatype 'a call = Returned 'a | Pending | Violated

text \<open>
  Every \<^verbatim>\<open>send(conn, p, len, flags)\<close> is answered by the next element of \<open>rets\<close>.
  An answer \<open>ret\<close> with \<open>0 \<le> ret \<le> len\<close> means that the first \<open>ret\<close> bytes at \<open>p\<close>
  went out; \<open>-1\<close> is the error return.  \<open>p\<close> is the part of the buffer not yet sent
  (so \<^verbatim>\<open>len\<close> is its length) and \<open>wire\<close> collects the bytes transmitted so far.
\<close>

fun send_loop :: "'a list \<Rightarrow> int list \<Rightarrow> 'a list \<Rightarrow> int call \<times> 'a list" where
  "send_loop p [] wire = (if length p = 0 then (Returned 0, wire) else (Pending, wire))"
| "send_loop p (ret # rets) wire =
     (if length p = 0 then (Returned 0, wire)
      else if ret = -1 then (Returned (-1), wire)
      else if ret < 0 \<or> int (length p) < ret then (Violated, wire)
      else send_loop (drop (nat ret) p) rets (wire @ take (nat ret) p))"

definition send_all :: "int \<Rightarrow> 'a list \<Rightarrow> nat \<Rightarrow> int list \<Rightarrow> int call \<times> 'a list" where
  "send_all conn buf len rets =
     (if conn < 0 then (Returned (-1), [])
      else if length buf < len then (Violated, [])
      else send_loop (take len buf) rets [])"

text \<open>
  The contract of \<^verbatim>\<open>send\<close> on a script of answers, for a loop that still has \<open>n\<close> bytes to
  send: every answer the loop gets to see is the error return or takes at least one
  and at most the remaining bytes.
\<close>

fun answers_ok :: "nat \<Rightarrow> int list \<Rightarrow> bool" where
  "answers_ok n [] = True"
| "answers_ok n (ret # rets) =
     (n = 0 \<or> ret = -1 \<or> (1 \<le> ret \<and> ret \<le> int n \<and> answers_ok (n - nat ret) rets))"

text \<open>
  What the answers say was taken.  \<open>sent_whole rets n\<close>: some first answers are all
  counts and add up to \<open>n\<close>.  \<open>failed_after rets n s\<close>: some first answers are all
  counts and add up to \<open>s\<close>, fewer than \<open>n\<close>, and the next answer is the error return.
\<close>

definition sent_whole :: "int list \<Rightarrow> nat \<Rightarrow> bool" where
  "sent_whole rets n =
     (\<exists>k\<le>length rets. (\<forall>ret \<in> set (take k rets). 0 \<le> ret) \<and> sum_list (take k rets) = int n)"

definition failed_after :: "int list \<Rightarrow> nat \<Rightarrow> nat \<Rightarrow> bool" where
  "failed_after rets n s =
     (\<exists>k<length rets. (\<forall>ret \<in> set (take k rets). 0 \<le> ret) \<and> sum_list (take k rets) = int s \<and>
        s < n \<and> rets ! k = -1)"

section \<open>The argument marshaller (client.c, prepare_data)\<close>

record run_data =
  argc :: "uint8_t list"
  amt_bytes :: "uint8_t list"
  cwd_argv :: string

text \<open>
  \<^verbatim>\<open>getcwd(cwd, size)\<close>: the environment holds the path of the working directory, or
  none when the call fails for a reason of its own; a path that does not fit the
  buffer with its terminator is a failure too.
\<close>

definition getcwd :: "string option \<Rightarrow> nat \<Rightarrow> string option" where
  "getcwd path sz =
     (case path of
        None \<Rightarrow> None
      | Some d \<Rightarrow> if strlen d + 1 \<le> sz then Some (cstr d) else None)"

text \<open>The first loop: \<^verbatim>\<open>amnt += (uint32_t)strlen(argv[i])\<close>.\<close>

fun add_lengths :: "uint32_t \<Rightarrow> string list \<Rightarrow> uint32_t" where
  "add_lengths amnt [] = amnt"
| "add_lengths amnt (a # as) = add_lengths (amnt + of_nat (strlen a)) as"

text \<open>
  The second loop: \<^verbatim>\<open>strcpy(p, argv[i]); p += strlen(p) + 1\<close>.  \<^verbatim>\<open>strlen(p)\<close> reads the
  buffer at \<open>p\<close>.
\<close>

fun copy_args :: "string \<Rightarrow> nat \<Rightarrow> string list \<Rightarrow> string option" where
  "copy_args buf p [] = Some buf"
| "copy_args buf p (a # as) =
     (case strcpy buf p a of
        None \<Rightarrow> None
      | Some buf' \<Rightarrow> copy_args buf' (p + strlen (drop p buf') + 1) as)"

text \<open>
  \<^verbatim>\<open>prepare_data(rd, argc, argv)\<close>.  The argument vector is a list whose length is
  \<^verbatim>\<open>argc\<close>.  \<open>path\<close> is what the environment answers to \<^verbatim>\<open>getcwd\<close> and \<open>mem_ok\<close>
  whether \<^verbatim>\<open>calloc\<close> succeeds.  The result is \<open>Returned (ret, rd)\<close> with the value
  returned and the request built (\<open>ret = -1\<close> on failure), or \<open>Violated\<close> when a
  \<^verbatim>\<open>strcpy\<close> would write past the allocated buffer.
\<close>

definition prepare_data :: "string option \<Rightarrow> bool \<Rightarrow> string list \<Rightarrow> (int \<times> run_data) call" where
  "prepare_data path mem_ok argv =
     (let rd0 = \<lparr>argc = int32_to_msg (of_nat (length argv)), amt_bytes = [], cwd_argv = []\<rparr> in
      case getcwd path 4096 of
        None \<Rightarrow> Returned (-1, rd0)
      | Some cwd \<Rightarrow>
          let amnt = add_lengths (of_nat (strlen cwd)) argv;
              amnt = amnt + (of_nat (length argv) + 1);
              rd1 = rd0\<lparr>amt_bytes := int32_to_msg amnt\<rparr>
          in if \<not> mem_ok then Returned (-1, rd1)
             else
               let buf = replicate (unat (amnt + 1)) NUL in
               case strcpy buf 0 cwd of
                 None \<Rightarrow> Violated
               | Some buf1 \<Rightarrow>
                   (case copy_args buf1 (strlen buf1 + 1) argv of
                      None \<Rightarrow> Violated
                    | Some buf2 \<Rightarrow> Returned (int (unat amnt), rd1\<lparr>cwd_argv := buf2\<rparr>)))"

text \<open>The bytes of the request that go out after the two length words.\<close>

definition payload :: "int \<times> run_data \<Rightarrow> string" where
  "payload r = take (nat (fst r)) (cwd_argv (snd r))"

text \<open>
  The request as the specification words it, to compare with what \<open>prepare_data\<close>
  builds: every field followed by one NUL, the working directory first, and the
  declared length \<open>len(cwd) + \<Sum> len(arg_i) + argument_count + 1\<close>.
\<close>

definition frame :: "string list \<Rightarrow> string" where
  "frame fs = concat (map (\<lambda>a. a @ [NUL]) fs)"

definition spec_payload :: "string \<Rightarrow> string list \<Rightarrow> string" where
  "spec_payload cwd argv = cwd @ [NUL] @ frame argv"

definition spec_payload_length :: "string \<Rightarrow> string list \<Rightarrow> nat" where
  "spec_payload_length cwd argv = length cwd + sum_list (map length argv) + length argv + 1"

text \<open>
  Modelled from the spec: the unmarshaller is the server's and is not among the
  sources.  Section 6 of the specification gives the payload as the NUL-terminated
  working directory followed by the NUL-terminated arguments, concatenated; the
  unmarshaller splits at every NUL, and the first field is the working directory.
\<close>

fun split_fields :: "string \<Rightarrow> string \<Rightarrow> string list" where
  "split_fields cur [] = []"
| "split_fields cur (c # cs) =
     (if c = NUL then cur # split_fields [] cs else split_fields (cur @ [c]) cs)"

definition unmarshal :: "string \<Rightarrow> (string \<times> string list) option" where
  "unmarshal p = (case split_fields [] p of [] \<Rightarrow> None | cwd # args \<Rightarrow> Some (cwd, args))"

section \<open>Command line (client.c, str2int and parse_args)\<close>

definition SV_DEFAULT_PORT :: int where
  "SV_DEFAULT_PORT = 3636"

definition INT_MAX :: int where "INT_MAX = 2 ^ 31 - 1"
definition INT_MIN :: int where "INT_MIN = - (2 ^ 31)"
definition LONG_MAX :: int where "LONG_MAX = 2 ^ 63 - 1"
definition LONG_MIN :: int where "LONG_MIN = - (2 ^ 63)"

definition isspace :: "char \<Rightarrow> bool" where
  "isspace c = (c = CHR '' '' \<or> c = CHR 0x09 \<or> c = CHR 0x0A \<or> c = CHR 0x0B \<or>
                c = CHR 0x0C \<or> c = CHR 0x0D)"

definition isdigit :: "char \<Rightarrow> bool" where
  "isdigit c = ((48::nat) \<le> of_char c \<and> of_char c \<le> (57::nat))"

fun digits_val :: "int \<Rightarrow> string \<Rightarrow> int" where
  "digits_val acc [] = acc"
| "digits_val acc (c # cs) = digits_val (acc * 10 + (int (of_char c) - 48)) cs"

text \<open>
  The C library's \<^verbatim>\<open>strtol(s, &end, 10)\<close> with a 64-bit \<^verbatim>\<open>long\<close>: leading white space,
  an optional sign, then digits.  The result is the value (clamped, with \<^verbatim>\<open>ERANGE\<close>, when
  it does not fit), the unread rest of the string, and whether \<^verbatim>\<open>errno\<close> is
  \<^verbatim>\<open>ERANGE\<close>.  Without a digit nothing is read.
\<close>

definition strtol :: "string \<Rightarrow> int \<times> string \<times> bool" where
  "strtol s =
     (let s1 = dropWhile isspace s;
          neg = (s1 \<noteq> [] \<and> hd s1 = CHR ''-'');
          s2 = (if s1 \<noteq> [] \<and> (hd s1 = CHR ''-'' \<or> hd s1 = CHR ''+'') then tl s1 else s1);
          ds = takeWhile isdigit s2;
          v = (if neg then - digits_val 0 ds else digits_val 0 ds)
      in if ds = [] then (0, s, False)
         else if LONG_MAX < v then (LONG_MAX, dropWhile isdigit s2, True)
         else if v < LONG_MIN then (LONG_MIN, dropWhile isdigit s2, True)
         else (v, dropWhile isdigit s2, False))"

text \<open>\<^verbatim>\<open>str2int(out, s)\<close>: \<open>Some l\<close> stands for \<^verbatim>\<open>*out = l; return 0\<close>, \<open>None\<close> for \<^verbatim>\<open>return -1\<close>.\<close>

definition str2int :: "string \<Rightarrow> int option" where
  "str2int s0 =
     (let s = cstr s0 in
      if s = [] \<or> isspace (hd s) then None
      else
        let (l, e, erange) = strtol s in
        if INT_MAX < l \<or> (erange \<and> l = LONG_MAX) then None
        else if l < INT_MIN \<or> (erange \<and> l = LONG_MIN) then None
        else if e \<noteq> [] then None
        else Some l)"

text \<open>
  \<^verbatim>\<open>parse_args(&new_argc, argv, &port)\<close>.  \<open>Usage\<close> is the call of \<^verbatim>\<open>usage\<close>, which prints
  and exits with \<^verbatim>\<open>EXIT_FAILURE\<close>; \<open>Parsed new_argv port\<close> is the normal return, with
  \<^verbatim>\<open>new_argc\<close> the length of \<open>new_argv\<close>.
\<close>

datatype parsed = Usage | Parsed "string list" int

definition parse_args :: "string list \<Rightarrow> parsed" where
  "parse_args argv =
     (if length argv < 2 then Usage
      else if strcmp_eq (argv ! 0) ''client'' \<or> strcmp_eq (argv ! 0) ''./client'' then
        (if strcmp_eq (argv ! 1) ''-p'' then
           (if length argv < 4 then Usage
            else case str2int (argv ! 2) of
                   None \<Rightarrow> Usage
                 | Some port \<Rightarrow>
                     if port < 0 \<or> 65535 < port then Usage
                     else Parsed (drop 3 argv) port)
         else if length argv < 2 then Usage
         else Parsed (drop 1 argv) SV_DEFAULT_PORT)
      else Parsed argv SV_DEFAULT_PORT)"

section \<open>Entry-point patcher (arch/arch_aarch64.c)\<close>

type_synonym uintptr_t = "64 word"
type_synonym memory = "uintptr_t \<Rightarrow> uint8_t"

text \<open>The three statics of the file.\<close>

record patcher =
  arch_addr_start :: uintptr_t
  patch :: "uint8_t list"
  bck_start :: "uint8_t list"

definition patcher_init :: patcher where
  "patcher_init =
     \<lparr>arch_addr_start = 0,
      patch = [0x41, 0x00, 0x00, 0x58,
               0x20, 0x00, 0x3f, 0xd6,
               0x00, 0x00, 0x00, 0x00, 0x00, 0x00, 0x00, 0x00],
      bck_start = replicate 16 0\<rparr>"

text \<open>
  \<^verbatim>\<open>memcpy\<close> between a static array and the memory of the process: the memory is a
  function from addresses to bytes, and the statics live outside the region that
  is patched.
\<close>

definition memcpy_from :: "memory \<Rightarrow> uintptr_t \<Rightarrow> nat \<Rightarrow> uint8_t list" where
  "memcpy_from mem src n = map (\<lambda>i. mem (src + of_nat i)) [0..<n]"

definition memcpy_to :: "memory \<Rightarrow> uintptr_t \<Rightarrow> uint8_t list \<Rightarrow> memory" where
  "memcpy_to mem dst bytes =
     (\<lambda>a. if unat (a - dst) < length bytes then bytes ! unat (a - dst) else mem a)"

text \<open>The bytes of the union \<^verbatim>\<open>u_addr\<close> on the little-endian target.\<close>

definition u_addr_val :: "64 word \<Rightarrow> uint8_t list" where
  "u_addr_val addr = map (\<lambda>i. ucast (drop_bit (8 * i) addr)) [0..<8]"

text \<open>
  \<^verbatim>\<open>arch_patch_start(start)\<close>; \<open>hook\<close> is the address of \<^verbatim>\<open>arch_pre_daemon_main\<close>, which
  is declared in a header.
\<close>

definition arch_patch_start ::
  "uintptr_t \<Rightarrow> uintptr_t \<Rightarrow> patcher \<times> memory \<Rightarrow> int \<times> patcher \<times> memory" where
  "arch_patch_start hook start s =
     (let (st, mem) = s;
          st = st\<lparr>arch_addr_start := start\<rparr>;
          st = st\<lparr>bck_start := memcpy_from mem start (length (patch st))\<rparr>;
          val = u_addr_val hook;
          st = st\<lparr>patch := fold (\<lambda>i p. p[8 + i := val ! i]) [0..<8] (patch st)\<rparr>;
          mem = memcpy_to mem start (patch st)
      in (0, st, mem))"

definition arch_restore_start :: "patcher \<times> memory \<Rightarrow> nat \<times> patcher \<times> memory" where
  "arch_restore_start s =
     (let (st, mem) = s;
          mem = memcpy_to mem (arch_addr_start st) (bck_start st)
      in (length (bck_start st) - 8, st, mem))"

section \<open>The I/O relay (client.c, events_error, handle_poll_event and the loop of main)\<close>

text \<open>The event bits of \<^verbatim>\<open><poll.h>\<close> on Linux.\<close>

definition POLLIN :: "16 word" where "POLLIN = 0x001"
definition POLLERR :: "16 word" where "POLLERR = 0x008"
definition POLLHUP :: "16 word" where "POLLHUP = 0x010"
definition POLLNVAL :: "16 word" where "POLLNVAL = 0x020"

definition STDIN_FILENO :: int where "STDIN_FILENO = 0"
definition STDOUT_FILENO :: int where "STDOUT_FILENO = 1"
definition STDERR_FILENO :: int where "STDERR_FILENO = 2"

record pollfd =
  fd :: int
  events :: "16 word"
  revents :: "16 word"

fun events_error_loop :: "pollfd list \<Rightarrow> int" where
  "events_error_loop [] = 0"
| "events_error_loop (p # ps) =
     (if events p AND POLLHUP \<noteq> 0 \<or> events p AND POLLERR \<noteq> 0 \<or> events p AND POLLNVAL \<noteq> 0
      then 1
      else events_error_loop ps)"

definition events_error :: "pollfd list \<Rightarrow> nat \<Rightarrow> int" where
  "events_error p evs = events_error_loop (take evs p)"

text \<open>What the program does to the outside, in order.\<close>

datatype action =
    SysSocket int
  | SysConnect int "16 word" int
  | SysSendBytes int "uint8_t list"
  | SysSendChars int string
  | SysPoll int
  | SysRead int int
  | SysWrite int int int
  | SysShutdown int
  | SysClose int
  | SysRecv int int
  | Die string

text \<open>
  \<^verbatim>\<open>handle_poll_event(pfd, out_fd, is_sock, &is_eof)\<close>.  \<open>amnt\<close> is what \<^verbatim>\<open>read\<close> returns and
  \<open>wr\<close> what \<^verbatim>\<open>write\<close> returns, should it be called.  The result is the value returned,
  \<^verbatim>\<open>*is_eof\<close>, the entry \<^verbatim>\<open>*pfd\<close> afterwards and the system calls made.
\<close>

definition handle_poll_event ::
  "pollfd \<Rightarrow> int \<Rightarrow> bool \<Rightarrow> int \<Rightarrow> int \<Rightarrow> int \<times> bool \<times> pollfd \<times> action list" where
  "handle_poll_event pfd out_fd is_sock amnt wr =
     (if amnt \<le> 0 then
        let cfd = (if is_sock then fd pfd else out_fd) in
        (-1, amnt = 0, pfd\<lparr>fd := -1\<rparr>,
         [SysRead (fd pfd) amnt, SysShutdown cfd, SysClose cfd])
      else if wr \<noteq> amnt then
        (-1, False, pfd, [SysRead (fd pfd) amnt, SysWrite out_fd amnt wr])
      else
        (0, False, pfd, [SysRead (fd pfd) amnt, SysWrite out_fd amnt wr]))"

text \<open>
  The environment of one turn of the loop: the value of \<^verbatim>\<open>poll\<close> and, for each of the
  three sources, the conditions the kernel has for its descriptor and the values of
  the \<^verbatim>\<open>read\<close> and \<^verbatim>\<open>write\<close> made for it in this turn.
\<close>

record source_env =
  ready :: "16 word"
  rd :: int
  wr :: int

record iter_env =
  poll_ret :: int
  srcs :: "nat \<Rightarrow> source_env"

text \<open>
  \<^verbatim>\<open>poll\<close> fills \<^verbatim>\<open>revents\<close>: nothing for a negative descriptor; otherwise the
  conditions asked for in \<^verbatim>\<open>events\<close>, and error, hangup and invalid descriptor
  whether asked for or not.
\<close>

definition poll_entry :: "pollfd \<Rightarrow> source_env \<Rightarrow> pollfd" where
  "poll_entry p se =
     p\<lparr>revents :=
         (if fd p < 0 then 0
          else ready se AND (events p OR POLLERR OR POLLHUP OR POLLNVAL))\<rparr>"

record relay_state =
  fds :: "pollfd list"
  log :: "action list"

text \<open>\<^verbatim>\<open>if (fds[i].revents & POLLIN) ... handle_poll_event(&fds[i], out_fd, is_sock, &is_eof)\<close>\<close>

definition service ::
  "nat \<Rightarrow> int \<Rightarrow> bool \<Rightarrow> iter_env \<Rightarrow> relay_state \<Rightarrow> (int \<times> bool) \<times> relay_state" where
  "service i out_fd is_sock e st =
     (if revents (fds st ! i) AND POLLIN \<noteq> 0 then
        let (r, is_eof, pfd, acts) =
              handle_poll_event (fds st ! i) out_fd is_sock (rd (srcs e i)) (wr (srcs e i))
        in ((r, is_eof), st\<lparr>fds := (fds st)[i := pfd], log := log st @ acts\<rparr>)
      else ((0, False), st))"

text \<open>
  One turn of \<^verbatim>\<open>while (poll(fds, 3, -1) != -1)\<close>; the boolean says that the loop is
  left.
\<close>

definition relay_iter :: "int \<Rightarrow> relay_state \<Rightarrow> iter_env \<Rightarrow> bool \<times> relay_state" where
  "relay_iter sock_stdin st e =
     (let st = st\<lparr>log := log st @ [SysPoll (poll_ret e)]\<rparr> in
      if poll_ret e = -1 then (True, st)
      else
        let st = st\<lparr>fds := map (\<lambda>i. poll_entry (fds st ! i) (srcs e i)) [0..<length (fds st)]\<rparr> in
        if events_error (fds st) 3 \<noteq> 0 then (True, st)
        else
          let (r0, st) = service 0 STDOUT_FILENO True e st in
          if fst r0 < 0 then (True, st)
          else
            let (r1, st) = service 1 STDERR_FILENO True e st in
            if fst r1 < 0 then (True, st)
            else
              let (r2, st) = service 2 sock_stdin False e st in
              if fst r2 < 0 \<and> \<not> snd r2 then (True, st)
              else (False, st))"

datatype relay_outcome = Exited relay_state | Polling relay_state

fun relay :: "int \<Rightarrow> relay_state \<Rightarrow> iter_env list \<Rightarrow> relay_outcome" where
  "relay sock_stdin st [] = Polling st"
| "relay sock_stdin st (e # es) =
     (case relay_iter sock_stdin st e of
        (True, st') \<Rightarrow> Exited st'
      | (False, st') \<Rightarrow> relay sock_stdin st' es)"

section \<open>The client (client.c, do_connect and main)\<close>

text \<open>
  The environment of a run: the answer to \<^verbatim>\<open>getcwd\<close>, whether \<^verbatim>\<open>calloc\<close> succeeds, the
  values of the \<open>k\<close>-th \<^verbatim>\<open>socket\<close> and \<^verbatim>\<open>connect\<close>, the answers to the \<^verbatim>\<open>send\<close>s of the
  \<open>k\<close>-th \<^verbatim>\<open>send_all\<close>, the turns of the relay loop, and the bytes that arrive on the
  control connection for the final \<^verbatim>\<open>recv\<close> (\<open>None\<close> when it fails).
\<close>

record env =
  e_cwd :: "string option"
  e_mem_ok :: bool
  e_socket :: "nat \<Rightarrow> int"
  e_connect :: "nat \<Rightarrow> int"
  e_send :: "nat \<Rightarrow> int list"
  e_polls :: "iter_env list"
  e_recv :: "uint8_t list option"

text \<open>
  How a run ends: \<^verbatim>\<open>exit(status)\<close> from \<^verbatim>\<open>die\<close> or \<^verbatim>\<open>usage\<close>, the \<^verbatim>\<open>return\<close> of
  \<^verbatim>\<open>main\<close>, still blocked in a system call when the scripted environment ends, or
  outside defined behaviour.
\<close>

datatype ending = Exit int | Return int | Blocked | Undefined

definition EXIT_FAILURE :: int where "EXIT_FAILURE = 1"

text \<open>
  \<^verbatim>\<open>do_connect(port, &sock)\<close> for the \<open>k\<close>-th connection; the port is a \<^verbatim>\<open>uint16_t\<close>.
  \<open>None\<close> is the \<^verbatim>\<open>die\<close> after a failed \<^verbatim>\<open>socket\<close>; otherwise the value of \<^verbatim>\<open>connect\<close>
  and the socket.
\<close>

definition do_connect :: "env \<Rightarrow> nat \<Rightarrow> 16 word \<Rightarrow> (int \<times> int) option \<times> action list" where
  "do_connect en k port =
     (let sock = e_socket en k in
      if sock < 0 then (None, [SysSocket sock, Die ''Unable to create a socket!''])
      else (Some (e_connect en k, sock), [SysSocket sock, SysConnect sock port (e_connect en k)]))"

text \<open>
  The three \<^verbatim>\<open>send_all\<close> of the request on the control socket.  \<open>Inl\<close> ends the run.
\<close>

definition send_request ::
  "env \<Rightarrow> int \<Rightarrow> int \<times> run_data \<Rightarrow> (ending \<times> action list) + action list" where
  "send_request en sock r =
     (let (amnt, rd) = r in
      case send_all sock (argc rd) 4 (e_send en 0) of
        (Pending, w0) \<Rightarrow> Inl (Blocked, [SysSendBytes sock w0])
      | (Violated, w0) \<Rightarrow> Inl (Undefined, [SysSendBytes sock w0])
      | (Returned r0, w0) \<Rightarrow>
          if r0 < 0 then Inl (Exit EXIT_FAILURE, [SysSendBytes sock w0, Die ''Cant send argc, aborting!...''])
          else
            (case send_all sock (amt_bytes rd) 4 (e_send en 1) of
               (Pending, w1) \<Rightarrow> Inl (Blocked, [SysSendBytes sock w0, SysSendBytes sock w1])
             | (Violated, w1) \<Rightarrow> Inl (Undefined, [SysSendBytes sock w0, SysSendBytes sock w1])
             | (Returned r1, w1) \<Rightarrow>
                 if r1 < 0 then
                   Inl (Exit EXIT_FAILURE,
                        [SysSendBytes sock w0, SysSendBytes sock w1,
                         Die ''Cant send amt_bytes, aborting!...''])
                 else
                   (case send_all sock (cwd_argv rd) (nat amnt) (e_send en 2) of
                      (Pending, w2) \<Rightarrow>
                        Inl (Blocked, [SysSendBytes sock w0, SysSendBytes sock w1, SysSendChars sock w2])
                    | (Violated, w2) \<Rightarrow>
                        Inl (Undefined, [SysSendBytes sock w0, SysSendBytes sock w1, SysSendChars sock w2])
                    | (Returned r2, w2) \<Rightarrow>
                        if r2 < 0 then
                          Inl (Exit EXIT_FAILURE,
                               [SysSendBytes sock w0, SysSendBytes sock w1, SysSendChars sock w2,
                                Die ''Cant send cwd_argv, aborting!...''])
                        else Inr [SysSendBytes sock w0, SysSendBytes sock w1, SysSendChars sock w2])))"

text \<open>
  The three connections of the relay, \<^verbatim>\<open>do_connect(port + 1, &sock_stdout)\<close> and so on.
  \<open>Inr\<close> carries the three sockets.
\<close>

definition connect_io ::
  "env \<Rightarrow> int \<Rightarrow> (ending \<times> action list) + ((int \<times> int \<times> int) \<times> action list)" where
  "connect_io en port =
     (case do_connect en 1 (word_of_int (port + 1)) of
        (None, a1) \<Rightarrow> Inl (Exit EXIT_FAILURE, a1)
      | (Some (c1, sock_stdout), a1) \<Rightarrow>
          if c1 < 0 then Inl (Exit EXIT_FAILURE, a1 @ [Die ''Unable to connect on stdout port %d!''])
          else
            (case do_connect en 2 (word_of_int (port + 2)) of
               (None, a2) \<Rightarrow> Inl (Exit EXIT_FAILURE, a1 @ a2)
             | (Some (c2, sock_stderr), a2) \<Rightarrow>
                 if c2 < 0 then
                   Inl (Exit EXIT_FAILURE, a1 @ a2 @ [Die ''Unable to connect on stderr port %d!''])
                 else
                   (case do_connect en 3 (word_of_int (port + 3)) of
                      (None, a3) \<Rightarrow> Inl (Exit EXIT_FAILURE, a1 @ a2 @ a3)
                    | (Some (c3, sock_stdin), a3) \<Rightarrow>
                        if c3 < 0 then
                          Inl (Exit EXIT_FAILURE,
                               a1 @ a2 @ a3 @ [Die ''Unable to connect on stdin port %d!''])
                        else Inr ((sock_stdout, sock_stderr, sock_stdin), a1 @ a2 @ a3))))"

text \<open>
  \<^verbatim>\<open>main\<close> up to the relay loop: parse, marshal, connect to the server port, send the
  request, connect the three relay ports.  \<open>Inr\<close> carries the four sockets.
\<close>

definition startup ::
  "env \<Rightarrow> string list \<Rightarrow> (ending \<times> action list) + ((int \<times> int \<times> int \<times> int) \<times> action list)" where
  "startup en argv =
     (case parse_args argv of
        Usage \<Rightarrow> Inl (Exit EXIT_FAILURE, [Die ''Usage:''])
      | Parsed new_argv port \<Rightarrow>
          (case prepare_data (e_cwd en) (e_mem_ok en) new_argv of
             Pending \<Rightarrow> Inl (Blocked, [])
           | Violated \<Rightarrow> Inl (Undefined, [])
           | Returned r \<Rightarrow>
               if fst r < 0 then Inl (Exit EXIT_FAILURE, [Die ''Unable to prepare data to be sent!''])
               else
                 (case do_connect en 0 (word_of_int port) of
                    (None, a0) \<Rightarrow> Inl (Exit EXIT_FAILURE, a0)
                  | (Some (c0, sock), a0) \<Rightarrow>
                      if c0 < 0 then
                        Inl (Exit EXIT_FAILURE, a0 @ [Die ''Unable to connect on sv port %d!''])
                      else
                        (case send_request en sock r of
                           Inl (x, as) \<Rightarrow> Inl (x, a0 @ as)
                         | Inr as \<Rightarrow>
                             (case connect_io en port of
                                Inl (x, ac) \<Rightarrow> Inl (x, a0 @ as @ ac)
                              | Inr ((sock_stdout, sock_stderr, sock_stdin), ac) \<Rightarrow>
                                  Inr ((sock, sock_stdout, sock_stderr, sock_stdin),
                                       a0 @ as @ ac))))))"

text \<open>The entries of \<^verbatim>\<open>fds\<close> before the loop.\<close>

definition relay_init :: "int \<Rightarrow> int \<Rightarrow> relay_state" where
  "relay_init sock_stdout sock_stderr =
     \<lparr>fds = [\<lparr>fd = sock_stdout, events = POLLIN, revents = 0\<rparr>,
             \<lparr>fd = sock_stderr, events = POLLIN, revents = 0\<rparr>,
             \<lparr>fd = STDIN_FILENO, events = POLLIN, revents = 0\<rparr>],
      log = []\<rparr>"

text \<open>
  \<^verbatim>\<open>main\<close> after the loop: the \<^verbatim>\<open>recv\<close> of at most four bytes, the decoding, and the
  closing of the sockets.  \<^verbatim>\<open>ret\<close> starts as 42.
\<close>

definition wait_return :: "env \<Rightarrow> int \<times> int \<times> int \<times> int \<Rightarrow> pollfd list \<Rightarrow> ending \<times> action list" where
  "wait_return en socks fs =
     (let (sock, sock_stdout, sock_stderr, sock_stdin) = socks;
          ret_buff = (case e_recv en of None \<Rightarrow> [] | Some bs \<Rightarrow> take 4 bs);
          amnt = (case e_recv en of None \<Rightarrow> -1 | Some bs \<Rightarrow> int (length ret_buff));
          ret = (if amnt \<noteq> 4 then 42 else msg_to_int32 ret_buff)
      in (Return (sint ret),
          [SysRecv sock amnt, SysClose sock] @
          (if 0 \<le> fd (fs ! 0) then [SysClose sock_stdout] else []) @
          (if 0 \<le> fd (fs ! 1) then [SysClose sock_stderr] else []) @
          (if 0 \<le> fd (fs ! 2) then [SysClose sock_stdin] else [])))"

definition main :: "env \<Rightarrow> string list \<Rightarrow> ending \<times> action list" where
  "main en argv =
     (case startup en argv of
        Inl stop \<Rightarrow> stop
      | Inr ((sock, sock_stdout, sock_stderr, sock_stdin), as) \<Rightarrow>
          (case relay sock_stdin (relay_init sock_stdout sock_stderr) (e_polls en) of
             Polling st \<Rightarrow> (Blocked, as @ log st)
           | Exited st \<Rightarrow>
               (let (x, aw) = wait_return en (sock, sock_stdout, sock_stderr, sock_stdin) (fds st)
                in (x, as @ log st @ aw))))"

section \<open>Invariant of the loop, and example runs\<close>

text \<open>
  In the loop \<^verbatim>\<open>fds\<close> has its three entries and every \<^verbatim>\<open>events\<close> field is \<^verbatim>\<open>POLLIN\<close>:
  the program sets them once and writes only \<^verbatim>\<open>fd\<close> afterwards.
\<close>

definition relay_wf :: "relay_state \<Rightarrow> bool" where
  "relay_wf st = (length (fds st) = 3 \<and> list_all (\<lambda>p. events p = POLLIN) (fds st))"

text \<open>
  Source \<open>i\<close> is readable in a turn when \<^verbatim>\<open>poll\<close> sets \<^verbatim>\<open>POLLIN\<close> in its \<^verbatim>\<open>revents\<close>; its
  chunk is relayed when the \<^verbatim>\<open>read\<close> gives bytes and the \<^verbatim>\<open>write\<close> takes them all.
\<close>

definition readable :: "relay_state \<Rightarrow> iter_env \<Rightarrow> nat \<Rightarrow> bool" where
  "readable st e i = (revents (poll_entry (fds st ! i) (srcs e i)) AND POLLIN \<noteq> 0)"

definition relayed :: "iter_env \<Rightarrow> nat \<Rightarrow> bool" where
  "relayed e i = (0 < rd (srcs e i) \<and> wr (srcs e i) = rd (srcs e i))"

text \<open>The three parts of the request as they leave on the control socket.\<close>

definition request :: "int \<Rightarrow> int \<times> run_data \<Rightarrow> action list" where
  "request sock r =
     [SysSendBytes sock (take 4 (argc (snd r))), SysSendBytes sock (take 4 (amt_bytes (snd r))),
      SysSendChars sock (payload r)]"

text \<open>
  Environments for the example runs: \<open>client -p 4000 echo hello\<close> in \<open>/tmp\<close>, sockets
  numbered from 3, every \<^verbatim>\<open>send\<close> taking all it is given.
\<close>

definition quiet :: source_env where
  "quiet = \<lparr>ready = 0, rd = 0, wr = 0\<rparr>"

definition turn :: "int \<Rightarrow> source_env \<Rightarrow> source_env \<Rightarrow> source_env \<Rightarrow> iter_env" where
  "turn n a b c = \<lparr>poll_ret = n, srcs = (\<lambda>i. if i = 0 then a else if i = 1 then b else c)\<rparr>"

definition stdout_eof_turn :: iter_env where
  "stdout_eof_turn =
     turn 2 \<lparr>ready = POLLIN, rd = 0, wr = 0\<rparr> \<lparr>ready = POLLIN, rd = 5, wr = 5\<rparr> quiet"

definition stderr_eof_turn :: iter_env where
  "stderr_eof_turn =
     turn 2 \<lparr>ready = POLLIN, rd = 7, wr = 7\<rparr> \<lparr>ready = POLLIN, rd = 0, wr = 0\<rparr> quiet"

definition stderr_data_turn :: iter_env where
  "stderr_data_turn = turn 1 quiet \<lparr>ready = POLLIN, rd = 5, wr = 5\<rparr> quiet"

definition stdin_hup_turn :: iter_env where
  "stdin_hup_turn = turn 1 quiet quiet \<lparr>ready = POLLHUP, rd = 0, wr = 0\<rparr>"

definition sock_no :: "nat \<Rightarrow> int" where
  "sock_no k = 3 + int k"

definition accept_all :: "nat \<Rightarrow> int" where
  "accept_all k = 0"

definition refuse :: "nat \<Rightarrow> nat \<Rightarrow> int" where
  "refuse j k = (if k = j then -1 else 0)"

definition sends_whole :: "nat \<Rightarrow> int list" where
  "sends_whole k = (if k = 2 then [16] else [4])"

definition example_argv :: "string list" where
  "example_argv = [''client'', ''-p'', ''4000'', ''echo'', ''hello'']"

definition example_env :: "(nat \<Rightarrow> int) \<Rightarrow> iter_env list \<Rightarrow> uint8_t list option \<Rightarrow> env" where
  "example_env conn polls rcv =
     \<lparr>e_cwd = Some ''/tmp'', e_mem_ok = True, e_socket = sock_no, e_connect = conn,
      e_send = sends_whole, e_polls = polls, e_recv = rcv\<rparr>"

section \<open>Properties of the codec\<close>

lemma msg_to_int32_int32_to_msg: "msg_to_int32 (int32_to_msg v) = v"
  unfolding msg_to_int32_def int32_to_msg_def
  apply (rule bit_word_eqI)
  subgoal for n
    apply (cases "n < 8"; cases "n < 16"; cases "n < 24")
           apply (auto simp add: bit_simps)
    done
  done

lemma int32_to_msg_bytes:
  "int32_to_msg v = [ucast (drop_bit 24 v), ucast (drop_bit 16 v), ucast (drop_bit 8 v), ucast v]"
  unfolding int32_to_msg_def
  apply simp
  apply (intro conjI bit_word_eqI)
    apply (auto simp add: bit_simps)
  done

lemma int32_to_msg_msg_to_int32:
  "int32_to_msg (msg_to_int32 [a, b, c, d]) = [a, b, c, d]"
  unfolding int32_to_msg_bytes msg_to_int32_def
  apply simp
  apply (intro conjI bit_word_eqI)
     apply (auto simp add: bit_simps dest: bit_imp_le_length)
  done

text \<open>
  C5.  Encoding gives four bytes, the most significant byte of the value first, and
  decoding the encoding of any 32-bit value gives the value back.  The functions have
  no failure mode: they are total functions of the value and of the four bytes, and
  on four bytes the encoding of the decoding is the four bytes again.
\<close>

theorem codec_roundtrip:
  "length (int32_to_msg v) = 4 \<and>
   int32_to_msg v = [ucast (drop_bit 24 v), ucast (drop_bit 16 v), ucast (drop_bit 8 v), ucast v] \<and>
   msg_to_int32 (int32_to_msg v) = v \<and>
   int32_to_msg (msg_to_int32 [a, b, c, d]) = [a, b, c, d]"
proof -
  have "length (int32_to_msg v) = 4"
    by (simp add: int32_to_msg_def)
  then show ?thesis
    using int32_to_msg_bytes [of v] msg_to_int32_int32_to_msg [of v]
      int32_to_msg_msg_to_int32 [of a b c d]
    by blast
qed

section \<open>Properties of the send loop\<close>

lemma send_loop_sound:
  "send_loop p rets w = (Returned r, wire) \<Longrightarrow>
     (r = 0 \<and> wire = w @ p) \<or> (r = -1 \<and> -1 \<in> set rets \<and> prefix wire (w @ p))"
proof (induction rets arbitrary: p w)
  case Nil
  then show ?case by (simp split: if_splits)
next
  case (Cons ret rets)
  show ?case
  proof (cases "length p = 0 \<or> ret = -1 \<or> ret < 0 \<or> int (length p) < ret")
    case True
    with Cons.prems show ?thesis by (auto split: if_splits)
  next
    case False
    with Cons.prems
    have "send_loop (drop (nat ret) p) rets (w @ take (nat ret) p) = (Returned r, wire)"
      by simp
    from Cons.IH [OF this] show ?thesis by auto
  qed
qed

lemma send_all_sound:
  assumes "send_all conn buf len rets = (Returned r, wire)"
  shows "(r = 0 \<and> wire = take len buf) \<or>
         (r = -1 \<and> (conn < 0 \<or> -1 \<in> set rets) \<and> prefix wire (take len buf))"
proof (cases "conn < 0 \<or> length buf < len")
  case True
  with assms show ?thesis by (auto simp: send_all_def split: if_splits)
next
  case False
  with assms have "send_loop (take len buf) rets [] = (Returned r, wire)"
    by (simp add: send_all_def)
  from send_loop_sound [OF this] show ?thesis by auto
qed

lemma sent_whole_Nil: "sent_whole [] n \<longleftrightarrow> n = 0"
  by (simp add: sent_whole_def)

lemma sent_whole_Cons:
  "sent_whole (r # rs) n \<longleftrightarrow> n = 0 \<or> (0 \<le> r \<and> nat r \<le> n \<and> sent_whole rs (n - nat r))"
proof
  assume "sent_whole (r # rs) n"
  then obtain k where k: "k \<le> length (r # rs)" "\<forall>ret \<in> set (take k (r # rs)). 0 \<le> ret"
    "sum_list (take k (r # rs)) = int n"
    unfolding sent_whole_def by blast
  show "n = 0 \<or> (0 \<le> r \<and> nat r \<le> n \<and> sent_whole rs (n - nat r))"
  proof (cases k)
    case 0
    with k show ?thesis by simp
  next
    case (Suc j)
    with k have r: "0 \<le> r" and nn: "\<forall>ret \<in> set (take j rs). 0 \<le> ret"
      and s: "r + sum_list (take j rs) = int n" and j: "j \<le> length rs"
      by simp_all
    from nn have "0 \<le> sum_list (take j rs)" by (intro sum_list_nonneg) simp
    with r s have "nat r \<le> n" "sum_list (take j rs) = int (n - nat r)" by linarith+
    with r nn j show ?thesis unfolding sent_whole_def by blast
  qed
next
  assume a: "n = 0 \<or> (0 \<le> r \<and> nat r \<le> n \<and> sent_whole rs (n - nat r))"
  show "sent_whole (r # rs) n"
  proof (cases "n = 0")
    case True
    then show ?thesis unfolding sent_whole_def by (intro exI [of _ 0]) simp
  next
    case False
    with a have r: "0 \<le> r" "nat r \<le> n" and w: "sent_whole rs (n - nat r)" by simp_all
    from w obtain j where j: "j \<le> length rs" "\<forall>ret \<in> set (take j rs). 0 \<le> ret"
      "sum_list (take j rs) = int (n - nat r)"
      unfolding sent_whole_def by blast
    with r show ?thesis unfolding sent_whole_def by (intro exI [of _ "Suc j"]) simp
  qed
qed

lemma failed_after_Nil: "\<not> failed_after [] n s"
  by (simp add: failed_after_def)

lemma failed_after_Cons:
  "failed_after (r # rs) n s \<longleftrightarrow>
     (r = -1 \<and> s = 0 \<and> 0 < n) \<or>
     (0 \<le> r \<and> nat r \<le> s \<and> s < n \<and> failed_after rs (n - nat r) (s - nat r))"
proof
  assume "failed_after (r # rs) n s"
  then obtain k where k: "k < length (r # rs)" "\<forall>ret \<in> set (take k (r # rs)). 0 \<le> ret"
    "sum_list (take k (r # rs)) = int s" "s < n" "(r # rs) ! k = -1"
    unfolding failed_after_def by blast
  show "(r = -1 \<and> s = 0 \<and> 0 < n) \<or>
        (0 \<le> r \<and> nat r \<le> s \<and> s < n \<and> failed_after rs (n - nat r) (s - nat r))"
  proof (cases k)
    case 0
    with k show ?thesis by simp
  next
    case (Suc j)
    with k have r: "0 \<le> r" and nn: "\<forall>ret \<in> set (take j rs). 0 \<le> ret"
      and s: "r + sum_list (take j rs) = int s" and j: "j < length rs" and e: "rs ! j = -1"
      by simp_all
    from nn have "0 \<le> sum_list (take j rs)" by (intro sum_list_nonneg) simp
    with r s k(4) have "nat r \<le> s" "sum_list (take j rs) = int (s - nat r)" "s - nat r < n - nat r"
      by linarith+
    with r nn j e k(4) show ?thesis unfolding failed_after_def by blast
  qed
next
  assume a: "(r = -1 \<and> s = 0 \<and> 0 < n) \<or>
        (0 \<le> r \<and> nat r \<le> s \<and> s < n \<and> failed_after rs (n - nat r) (s - nat r))"
  show "failed_after (r # rs) n s"
  proof (cases "r = -1")
    case True
    with a show ?thesis unfolding failed_after_def by (intro exI [of _ 0]) auto
  next
    case False
    with a have r: "0 \<le> r" "nat r \<le> s" "s < n" and w: "failed_after rs (n - nat r) (s - nat r)"
      by simp_all
    from w obtain j where j: "j < length rs" "\<forall>ret \<in> set (take j rs). 0 \<le> ret"
      "sum_list (take j rs) = int (s - nat r)" "rs ! j = -1"
      unfolding failed_after_def by blast
    with r show ?thesis unfolding failed_after_def by (intro exI [of _ "Suc j"]) simp
  qed
qed

lemma send_loop_success:
  "send_loop p rets w = (Returned 0, wire) \<longleftrightarrow> wire = w @ p \<and> sent_whole rets (length p)"
proof (induction rets arbitrary: p w)
  case Nil
  then show ?case by (auto simp: sent_whole_Nil)
next
  case (Cons ret rets)
  show ?case
  proof (cases "length p = 0 \<or> ret = -1 \<or> ret < 0 \<or> int (length p) < ret")
    case True
    then show ?thesis by (auto simp: sent_whole_Cons)
  next
    case False
    then have "send_loop p (ret # rets) w = send_loop (drop (nat ret) p) rets (w @ take (nat ret) p)"
      by simp
    with Cons.IH [of "drop (nat ret) p" "w @ take (nat ret) p"] False
    show ?thesis by (auto simp: sent_whole_Cons)
  qed
qed

lemma send_loop_failure:
  "send_loop p rets w = (Returned (-1), wire) \<longleftrightarrow>
     (\<exists>s. failed_after rets (length p) s \<and> wire = w @ take s p)"
proof (induction rets arbitrary: p w)
  case Nil
  then show ?case by (auto simp: failed_after_Nil)
next
  case (Cons ret rets)
  show ?case
  proof (cases "length p = 0 \<or> ret = -1 \<or> ret < 0 \<or> int (length p) < ret")
    case True
    then show ?thesis by (auto simp: failed_after_Cons)
  next
    case False
    let ?n = "nat ret"
    from False have n: "?n \<le> length p" "0 \<le> ret" "ret \<noteq> -1" "p \<noteq> []" by auto
    have step: "send_loop p (ret # rets) w = send_loop (drop ?n p) rets (w @ take ?n p)"
      using False by simp
    have "(\<exists>s. failed_after rets (length p - ?n) s \<and> wire = (w @ take ?n p) @ take s (drop ?n p)) \<longleftrightarrow>
          (\<exists>s. failed_after (ret # rets) (length p) s \<and> wire = w @ take s p)"
    proof
      assume "\<exists>s. failed_after rets (length p - ?n) s \<and> wire = (w @ take ?n p) @ take s (drop ?n p)"
      then obtain s where s: "failed_after rets (length p - ?n) s"
        "wire = (w @ take ?n p) @ take s (drop ?n p)" by blast
      from s(1) have "s < length p - ?n" unfolding failed_after_def by blast
      with s n have "failed_after (ret # rets) (length p) (?n + s)"
        by (simp add: failed_after_Cons)
      moreover have "wire = w @ take (?n + s) p"
        using s(2) by (simp add: take_add)
      ultimately show "\<exists>s. failed_after (ret # rets) (length p) s \<and> wire = w @ take s p" by blast
    next
      assume "\<exists>s. failed_after (ret # rets) (length p) s \<and> wire = w @ take s p"
      then obtain s where s: "failed_after (ret # rets) (length p) s" "wire = w @ take s p" by blast
      with n have f: "?n \<le> s" "failed_after rets (length p - ?n) (s - ?n)"
        by (simp_all add: failed_after_Cons)
      have "take s p = take ?n p @ take (s - ?n) (drop ?n p)"
        using f(1) take_add [of ?n "s - ?n" p] by simp
      with s(2) f(2)
      show "\<exists>s. failed_after rets (length p - ?n) s \<and> wire = (w @ take ?n p) @ take s (drop ?n p)"
        by auto
    qed
    with Cons.IH [of "drop ?n p" "w @ take ?n p"] step show ?thesis by simp
  qed
qed

lemma send_loop_Returned: "send_loop p rets w = (Returned r, wire) \<Longrightarrow> r = 0 \<or> r = -1"
  by (induction rets arbitrary: p w) (auto split: if_splits)

lemma send_loop_returns:
  "answers_ok (length p) rets \<Longrightarrow> length p \<le> length rets \<Longrightarrow>
     \<exists>r wire. send_loop p rets w = (Returned r, wire)"
proof (induction rets arbitrary: p w)
  case Nil
  then show ?case by simp
next
  case (Cons ret rets)
  show ?case
  proof (cases "length p = 0 \<or> ret = -1")
    case True
    then show ?thesis by auto
  next
    case False
    with Cons.prems have r: "1 \<le> ret" "ret \<le> int (length p)"
      and ok: "answers_ok (length p - nat ret) rets" by simp_all
    from r Cons.prems(2) have "length (drop (nat ret) p) \<le> length rets" by simp
    with Cons.IH [of "drop (nat ret) p" "w @ take (nat ret) p"] ok r False
    show ?thesis by simp
  qed
qed

text \<open>
  C8.  With a valid connection and a length within the buffer, \<open>send_all\<close> returns 0
  exactly when the answers of \<^verbatim>\<open>send\<close> it has consumed are counts that add up to \<open>len\<close>,
  and then the bytes gone out are the \<open>len\<close> bytes of the buffer: success is never
  reported while the answers account for a part only, and partial answers are
  followed by further calls.  It returns -1 exactly when a \<^verbatim>\<open>send\<close> fails after the
  earlier answers took fewer than \<open>len\<close> bytes, and what has gone out then is that
  prefix of the buffer.  It returns nothing else, and it does return: for answers
  within the contract of \<^verbatim>\<open>send\<close>, each one a failure or a progress of at least one
  byte, \<open>len\<close> answers are enough.  With a negative connection it returns -1 and
  sends nothing.
\<close>

theorem send_all_all_or_nothing:
  "(conn < 0 \<longrightarrow> send_all conn buf len rets = (Returned (-1), [])) \<and>
   (0 \<le> conn \<and> len \<le> length buf \<longrightarrow>
      (send_all conn buf len rets = (Returned 0, wire) \<longleftrightarrow>
         wire = take len buf \<and>
         (\<exists>k\<le>length rets. (\<forall>ret \<in> set (take k rets). 0 \<le> ret) \<and>
            sum_list (take k rets) = int len)) \<and>
      (send_all conn buf len rets = (Returned (-1), wire) \<longleftrightarrow>
         (\<exists>k<length rets. (\<forall>ret \<in> set (take k rets). 0 \<le> ret) \<and>
            sum_list (take k rets) < int len \<and> rets ! k = -1 \<and>
            wire = take (nat (sum_list (take k rets))) buf)) \<and>
      (send_all conn buf len rets = (Returned r, wire) \<longrightarrow> r = 0 \<or> r = -1) \<and>
      (answers_ok len rets \<and> len \<le> length rets \<longrightarrow>
         (\<exists>r wire. send_all conn buf len rets = (Returned r, wire))))"
proof (intro conjI impI)
  assume "conn < 0"
  then show "send_all conn buf len rets = (Returned (-1), [])"
    by (simp add: send_all_def)
next
  assume a: "0 \<le> conn \<and> len \<le> length buf"
  then have sa: "send_all conn buf len rets = send_loop (take len buf) rets []"
    and l: "length (take len buf) = len"
    by (simp_all add: send_all_def)
  show "send_all conn buf len rets = (Returned 0, wire) \<longleftrightarrow>
         wire = take len buf \<and>
         (\<exists>k\<le>length rets. (\<forall>ret \<in> set (take k rets). 0 \<le> ret) \<and>
            sum_list (take k rets) = int len)"
    using send_loop_success [of "take len buf" rets "[]" wire] l
    by (simp add: sa sent_whole_def)
  have "(\<exists>s. failed_after rets len s \<and> wire = take s (take len buf)) \<longleftrightarrow>
        (\<exists>k<length rets. (\<forall>ret \<in> set (take k rets). 0 \<le> ret) \<and>
            sum_list (take k rets) < int len \<and> rets ! k = -1 \<and>
            wire = take (nat (sum_list (take k rets))) buf)"
  proof
    assume "\<exists>s. failed_after rets len s \<and> wire = take s (take len buf)"
    then obtain s k where k: "k < length rets" "\<forall>ret \<in> set (take k rets). 0 \<le> ret"
      "sum_list (take k rets) = int s" "s < len" "rets ! k = -1"
      and w: "wire = take s (take len buf)"
      unfolding failed_after_def by blast
    from k(4) w have "wire = take s buf" by (simp add: min_def)
    with k have "(\<forall>ret \<in> set (take k rets). 0 \<le> ret) \<and>
            sum_list (take k rets) < int len \<and> rets ! k = -1 \<and>
            wire = take (nat (sum_list (take k rets))) buf"
      by simp
    with k(1) show "\<exists>k<length rets. (\<forall>ret \<in> set (take k rets). 0 \<le> ret) \<and>
            sum_list (take k rets) < int len \<and> rets ! k = -1 \<and>
            wire = take (nat (sum_list (take k rets))) buf"
      by blast
  next
    assume "\<exists>k<length rets. (\<forall>ret \<in> set (take k rets). 0 \<le> ret) \<and>
            sum_list (take k rets) < int len \<and> rets ! k = -1 \<and>
            wire = take (nat (sum_list (take k rets))) buf"
    then obtain k where k: "k < length rets" "\<forall>ret \<in> set (take k rets). 0 \<le> ret"
      "sum_list (take k rets) < int len" "rets ! k = -1"
      and w: "wire = take (nat (sum_list (take k rets))) buf"
      by blast
    let ?s = "nat (sum_list (take k rets))"
    from k(2) have "0 \<le> sum_list (take k rets)" by (intro sum_list_nonneg) simp
    with k(3) have s: "sum_list (take k rets) = int ?s" "?s < len" by simp_all
    with k have "failed_after rets len ?s" unfolding failed_after_def by blast
    moreover from s(2) w have "wire = take ?s (take len buf)" by (simp add: min_def)
    ultimately show "\<exists>s. failed_after rets len s \<and> wire = take s (take len buf)" by blast
  qed
  then show "send_all conn buf len rets = (Returned (-1), wire) \<longleftrightarrow>
         (\<exists>k<length rets. (\<forall>ret \<in> set (take k rets). 0 \<le> ret) \<and>
            sum_list (take k rets) < int len \<and> rets ! k = -1 \<and>
            wire = take (nat (sum_list (take k rets))) buf)"
    using send_loop_failure [of "take len buf" rets "[]" wire] l
    by (simp add: sa)
  show "r = 0 \<or> r = -1" if "send_all conn buf len rets = (Returned r, wire)"
    using that send_loop_Returned [of "take len buf" rets "[]" r wire] by (simp add: sa)
  show "\<exists>r wire. send_all conn buf len rets = (Returned r, wire)"
    if "answers_ok len rets \<and> len \<le> length rets"
    using that send_loop_returns [of "take len buf" rets "[]"] l by (simp add: sa)
qed

theorem send_all_all_or_nothing_witness:
  "send_all 3 ''abcdef'' 6 [2, 0, 3, 1] = (Returned 0, ''abcdef'') \<and>
   send_all 3 ''abcdef'' 6 [2, 0, -1] = (Returned (-1), ''ab'') \<and>
   send_all (-1) ''abcdef'' 6 [6] = (Returned (-1), []) \<and>
   (\<exists>r wire. send_all 3 ''abcdef'' 6 [2, 3, 1, 1, 1, 1] = (Returned r, wire))"
proof -
  have h: "(0::int) \<le> 3 \<and> 6 \<le> length ''abcdef''" by simp
  have "''abcdef'' = take 6 ''abcdef'' \<and>
        (\<exists>k\<le>length [2, 0, 3, 1 :: int]. (\<forall>ret \<in> set (take k [2, 0, 3, 1 :: int]). 0 \<le> ret) \<and>
           sum_list (take k [2, 0, 3, 1 :: int]) = int 6)"
    by (intro conjI exI [of _ 4]) simp_all
  with send_all_all_or_nothing [of 3 "''abcdef''" 6 "[2, 0, 3, 1]" "''abcdef''" 0] h
  have a: "send_all 3 ''abcdef'' 6 [2, 0, 3, 1] = (Returned 0, ''abcdef'')"
    by blast
  have "\<exists>k<length [2, 0, -1 :: int]. (\<forall>ret \<in> set (take k [2, 0, -1 :: int]). 0 \<le> ret) \<and>
           sum_list (take k [2, 0, -1 :: int]) < int 6 \<and> [2, 0, -1 :: int] ! k = -1 \<and>
           ''ab'' = take (nat (sum_list (take k [2, 0, -1 :: int]))) ''abcdef''"
    by (intro exI [of _ 2]) simp
  with send_all_all_or_nothing [of 3 "''abcdef''" 6 "[2, 0, -1]" "''ab''" 0] h
  have b: "send_all 3 ''abcdef'' 6 [2, 0, -1] = (Returned (-1), ''ab'')"
    by blast
  from send_all_all_or_nothing [of "-1" "''abcdef''" 6 "[6]" "[]" 0]
  have c: "send_all (-1) ''abcdef'' 6 [6] = (Returned (-1), [])"
    by simp
  have "answers_ok 6 [2, 3, 1, 1, 1, 1] \<and> 6 \<le> length [2, 3, 1, 1, 1, 1 :: int]"
    by simp
  with send_all_all_or_nothing [of 3 "''abcdef''" 6 "[2, 3, 1, 1, 1, 1]" "[]" 0] h
  have d: "\<exists>r wire. send_all 3 ''abcdef'' 6 [2, 3, 1, 1, 1, 1] = (Returned r, wire)"
    by blast
  from a b c d show ?thesis by blast
qed

section \<open>Properties of the marshaller\<close>

lemma cstr_id: "NUL \<notin> set s \<Longrightarrow> cstr s = s"
  by (induction s) (auto simp: cstr_def)

lemma cstr_append_NUL: "NUL \<notin> set s \<Longrightarrow> cstr (s @ NUL # rest) = s"
  by (induction s) (auto simp: cstr_def)

lemma strlen_id: "NUL \<notin> set s \<Longrightarrow> strlen s = length s"
  by (simp add: strlen_def cstr_id)

lemma add_lengths_sum:
  "add_lengths amnt args = amnt + of_nat (sum_list (map strlen args))"
  by (induction args arbitrary: amnt) (simp_all add: add.assoc)

lemma sum_strlen: "\<forall>a \<in> set args. NUL \<notin> set a \<Longrightarrow> map strlen args = map length args"
  by (simp add: strlen_id)

lemma length_frame: "length (frame args) = sum_list (map length args) + length args"
  by (induction args) (simp_all add: frame_def)

lemma strcpy_ok:
  assumes "NUL \<notin> set a" "p + length a + 1 \<le> length buf"
  shows "strcpy buf p a = Some (take p buf @ a @ [NUL] @ drop (p + length a + 1) buf)"
  using assms by (simp add: strcpy_def cstr_id)

lemma copy_args_frame:
  assumes "\<forall>a \<in> set args. NUL \<notin> set a" "p + length (frame args) \<le> length buf"
  shows "copy_args buf p args = Some (take p buf @ frame args @ drop (p + length (frame args)) buf)"
  using assms
proof (induction args arbitrary: buf p)
  case Nil
  then show ?case by (simp add: frame_def)
next
  case (Cons a args)
  let ?buf' = "take p buf @ a @ [NUL] @ drop (p + length a + 1) buf"
  let ?p' = "p + length a + 1"
  from Cons.prems have nf: "NUL \<notin> set a" and nfs: "\<forall>a \<in> set args. NUL \<notin> set a"
    and len: "p + length a + 1 + length (frame args) \<le> length buf"
    by (simp_all add: frame_def)
  have cp: "strcpy buf p a = Some ?buf'"
    using nf len by (intro strcpy_ok) simp_all
  have p_le: "p \<le> length buf" using len by simp
  have lenb: "length ?buf' = length buf" using len by simp
  have "drop p ?buf' = a @ NUL # drop (p + length a + 1) buf"
    using p_le by simp
  then have sl: "strlen (drop p ?buf') = length a"
    using nf by (simp add: strlen_def cstr_append_NUL)
  have tk: "take ?p' ?buf' = take p buf @ a @ [NUL]"
    using p_le by simp
  have dr: "drop (?p' + length (frame args)) ?buf' = drop (?p' + length (frame args)) buf"
    using len by (simp add: add_ac)
  have "copy_args ?buf' ?p' args =
          Some (take ?p' ?buf' @ frame args @ drop (?p' + length (frame args)) ?buf')"
    using nfs len lenb by (intro Cons.IH) simp_all
  then show ?case
    using cp sl tk dr by (simp add: frame_def add.assoc add.commute add.left_commute)
qed

lemma split_fields_field:
  "NUL \<notin> set a \<Longrightarrow> split_fields cur (a @ NUL # rest) = (cur @ a) # split_fields [] rest"
  by (induction a arbitrary: cur) auto

lemma split_fields_frame:
  "\<forall>a \<in> set fs. NUL \<notin> set a \<Longrightarrow> split_fields [] (frame fs) = fs"
proof (induction fs)
  case Nil
  then show ?case by (simp add: frame_def)
next
  case (Cons a fs)
  then show ?case
    using split_fields_field [of a "[]" "frame fs"] by (simp add: frame_def)
qed

lemma len32: "LENGTH(32) = 32"
  by simp

lemma take_field: "take (length xs + 1) (xs @ [c] @ ys) = xs @ [c]"
  by simp

lemma drop_field_replicate:
  "drop (length xs + 1 + k) (xs @ [c] @ replicate (k + 1) z) = [z]"
proof -
  have "drop (length xs + 1 + k) (xs @ [c] @ replicate (k + 1) z) = drop k (replicate (k + 1) z)"
    by simp
  also have "\<dots> = replicate 1 z"
    by (simp only: drop_replicate add_diff_cancel_left')
  finally show ?thesis by simp
qed

lemma prepare_data_frame:
  assumes nf: "NUL \<notin> set cwd" and nfs: "\<forall>a \<in> set argv. NUL \<notin> set a"
    and cwd: "length cwd < 4096"
    and fits: "length cwd + sum_list (map length argv) + length argv + 1 < 2 ^ 32 - 1"
  shows "prepare_data (Some cwd) True argv =
           Returned (int (length cwd + sum_list (map length argv) + length argv + 1),
             \<lparr>argc = int32_to_msg (of_nat (length argv)),
              amt_bytes = int32_to_msg (of_nat (length cwd + sum_list (map length argv) + length argv + 1)),
              cwd_argv = cwd @ [NUL] @ frame argv @ [NUL]\<rparr>)"
proof -
  let ?n = "length (frame argv)"
  let ?T = "length cwd + sum_list (map length argv) + length argv + 1"
  let ?amnt = "of_nat ?T :: 32 word"
  have T: "?T = length cwd + 1 + ?n"
    by (simp add: length_frame)
  have g: "getcwd (Some cwd) 4096 = Some cwd"
    using nf cwd by (simp add: getcwd_def strlen_id cstr_id)
  have a1: "add_lengths (of_nat (strlen cwd)) argv + (of_nat (length argv) + 1) = ?amnt"
    using nf nfs by (simp add: add_lengths_sum strlen_id sum_strlen)
  have "?T mod 2 ^ 32 = ?T"
    using fits by (intro mod_less) simp
  then have u: "unat ?amnt = ?T"
    by (simp only: unat_of_nat len32)
  have e: "?amnt + 1 = (of_nat (?T + 1) :: 32 word)" by simp
  have "(?T + 1) mod 2 ^ 32 = ?T + 1"
    using fits by (intro mod_less) simp
  then have "unat (of_nat (?T + 1) :: 32 word) = ?T + 1"
    by (simp only: unat_of_nat len32)
  then have u1: "unat (?amnt + 1) = ?T + 1"
    by (simp only: e)
  let ?buf = "replicate (?T + 1) NUL"
  let ?buf1 = "cwd @ [NUL] @ replicate (?n + 1) NUL"
  have "strcpy ?buf 0 cwd = Some (take 0 ?buf @ cwd @ [NUL] @ drop (0 + length cwd + 1) ?buf)"
    using nf by (intro strcpy_ok) simp_all
  moreover have "drop (0 + length cwd + 1) ?buf = replicate (?n + 1) NUL"
  proof -
    have "?T + 1 - (0 + length cwd + 1) = ?n + 1" by (simp add: length_frame)
    then show ?thesis by (simp only: drop_replicate)
  qed
  ultimately have s1: "strcpy ?buf 0 cwd = Some ?buf1"
    by (simp only: take_0 append_Nil)
  have sl: "strlen ?buf1 = length cwd"
    using nf by (simp add: strlen_def cstr_append_NUL)
  have "copy_args ?buf1 (length cwd + 1) argv =
          Some (take (length cwd + 1) ?buf1 @ frame argv @
                drop (length cwd + 1 + ?n) ?buf1)"
    using nfs by (intro copy_args_frame) simp_all
  then have c: "copy_args ?buf1 (length cwd + 1) argv = Some (cwd @ [NUL] @ frame argv @ [NUL])"
    by (simp only: take_field drop_field_replicate append_assoc)
  show ?thesis
    unfolding prepare_data_def Let_def g option.case a1 u u1 s1 sl c
    by simp
qed

lemma length_spec_payload: "length (spec_payload cwd argv) = spec_payload_length cwd argv"
  by (simp add: spec_payload_def spec_payload_length_def length_frame)

lemma prepare_data_spec:
  assumes "NUL \<notin> set cwd" and "\<forall>a \<in> set argv. NUL \<notin> set a"
    and "length cwd < 4096" and "spec_payload_length cwd argv < 2 ^ 32 - 1"
  shows "prepare_data (Some cwd) True argv =
           Returned (int (spec_payload_length cwd argv),
             \<lparr>argc = int32_to_msg (of_nat (length argv)),
              amt_bytes = int32_to_msg (of_nat (spec_payload_length cwd argv)),
              cwd_argv = spec_payload cwd argv @ [NUL]\<rparr>)"
  using prepare_data_frame [of cwd argv] assms
  by (simp add: spec_payload_def spec_payload_length_def)

lemma payload_spec:
  "payload (int (spec_payload_length cwd argv),
            \<lparr>argc = x, amt_bytes = y, cwd_argv = spec_payload cwd argv @ [NUL]\<rparr>) =
   spec_payload cwd argv"
  unfolding payload_def fst_conv snd_conv nat_int
  by (simp add: length_spec_payload)

lemma unmarshal_spec_payload:
  assumes "NUL \<notin> set cwd" and "\<forall>a \<in> set argv. NUL \<notin> set a"
  shows "unmarshal (spec_payload cwd argv) = Some (cwd, argv)"
proof -
  have "spec_payload cwd argv = frame (cwd # argv)"
    by (simp add: spec_payload_def frame_def)
  moreover have "split_fields [] (frame (cwd # argv)) = cwd # argv"
    using assms by (intro split_fields_frame) simp
  ultimately show ?thesis by (simp add: unmarshal_def)
qed

lemma parse_args_scenario:
  "parse_args [''client'', ''-p'', ''4000'', ''echo'', ''hello''] = Parsed [''echo'', ''hello''] 4000"
  by (simp add: parse_args_def strcmp_eq_def cstr_def NUL_def SV_DEFAULT_PORT_def str2int_def
      strtol_def isspace_def isdigit_def INT_MAX_def INT_MIN_def LONG_MAX_def LONG_MIN_def Let_def)

text \<open>
  C6.  For a working directory that \<open>getcwd\<close> can return (shorter than its 4096-byte
  buffer) and arguments without NUL whose request fits the \<open>uint32_t\<close> length,
  \<open>prepare_data\<close> succeeds; the value it returns and the length word it encodes are
  \<open>len(cwd) + \<Sum> len(arg_i) + n + 1\<close>, the count word encodes \<open>n\<close>, and the bytes sent
  are the working directory, a NUL, and every argument followed by a NUL, with
  nothing in between.  For \<open>client -p 4000 echo hello\<close> run in \<open>/tmp\<close> the arguments
  forwarded are \<open>echo\<close> and \<open>hello\<close>, the count is 2, the length 16 and the payload
  \<open>/tmp\0echo\0hello\0\<close>.
\<close>

theorem prepare_data_payload:
  assumes "NUL \<notin> set cwd" and "\<forall>a \<in> set argv. NUL \<notin> set a"
    and "length cwd < 4096" and "spec_payload_length cwd argv < 2 ^ 32 - 1"
  shows "(\<exists>rd. prepare_data (Some cwd) True argv = Returned (int (spec_payload_length cwd argv), rd) \<and>
            argc rd = int32_to_msg (of_nat (length argv)) \<and>
            amt_bytes rd = int32_to_msg (of_nat (spec_payload_length cwd argv)) \<and>
            payload (int (spec_payload_length cwd argv), rd) = spec_payload cwd argv) \<and>
         spec_payload cwd argv = cwd @ [NUL] @ concat (map (\<lambda>a. a @ [NUL]) argv) \<and>
         length (spec_payload cwd argv) = length cwd + sum_list (map length argv) + length argv + 1 \<and>
         parse_args [''client'', ''-p'', ''4000'', ''echo'', ''hello''] = Parsed [''echo'', ''hello''] 4000 \<and>
         (\<exists>rd. prepare_data (Some ''/tmp'') True [''echo'', ''hello''] = Returned (16, rd) \<and>
            argc rd = [0, 0, 0, 2] \<and> amt_bytes rd = [0, 0, 0, 16] \<and>
            payload (16, rd) = ''/tmp'' @ [NUL] @ ''echo'' @ [NUL] @ ''hello'' @ [NUL])"
proof -
  have general:
    "\<exists>rd. prepare_data (Some cwd) True argv = Returned (int (spec_payload_length cwd argv), rd) \<and>
            argc rd = int32_to_msg (of_nat (length argv)) \<and>
            amt_bytes rd = int32_to_msg (of_nat (spec_payload_length cwd argv)) \<and>
            payload (int (spec_payload_length cwd argv), rd) = spec_payload cwd argv"
    using prepare_data_spec [OF assms] payload_spec [of cwd argv] by simp
  have shape: "spec_payload cwd argv = cwd @ [NUL] @ concat (map (\<lambda>a. a @ [NUL]) argv)"
    by (simp add: spec_payload_def frame_def)
  have len: "length (spec_payload cwd argv) =
               length cwd + sum_list (map length argv) + length argv + 1"
    by (simp add: length_spec_payload spec_payload_length_def)
  have l16: "spec_payload_length ''/tmp'' [''echo'', ''hello''] = 16"
    by (simp add: spec_payload_length_def)
  have "prepare_data (Some ''/tmp'') True [''echo'', ''hello''] =
          Returned (int (spec_payload_length ''/tmp'' [''echo'', ''hello'']),
             \<lparr>argc = int32_to_msg (of_nat (length [''echo'', ''hello''])),
              amt_bytes = int32_to_msg (of_nat (spec_payload_length ''/tmp'' [''echo'', ''hello''])),
              cwd_argv = spec_payload ''/tmp'' [''echo'', ''hello''] @ [NUL]\<rparr>)"
    by (rule prepare_data_spec) (simp_all add: NUL_def spec_payload_length_def)
  then have scen:
    "\<exists>rd. prepare_data (Some ''/tmp'') True [''echo'', ''hello''] = Returned (16, rd) \<and>
            argc rd = [0, 0, 0, 2] \<and> amt_bytes rd = [0, 0, 0, 16] \<and>
            payload (16, rd) = ''/tmp'' @ [NUL] @ ''echo'' @ [NUL] @ ''hello'' @ [NUL]"
    using payload_spec [of "''/tmp''" "[''echo'', ''hello'']"]
    by (simp add: l16 int32_to_msg_def spec_payload_def frame_def)
  from general shape len parse_args_scenario scen show ?thesis by blast
qed

theorem prepare_data_payload_witness:
  "NUL \<notin> set ''/'' \<and> NUL \<notin> set ''ls'' \<and> NUL \<notin> set ''-l'' \<and> length ''/'' < 4096 \<and>
   spec_payload_length ''/'' [''ls'', ''-l''] < 2 ^ 32 - 1 \<and>
   (\<exists>rd. prepare_data (Some ''/'') True [''ls'', ''-l''] = Returned (8, rd) \<and>
      payload (8, rd) = ''/'' @ [NUL] @ ''ls'' @ [NUL] @ ''-l'' @ [NUL])"
proof -
  have h: "NUL \<notin> set ''/''" "\<forall>a \<in> set [''ls'', ''-l'']. NUL \<notin> set a" "length ''/'' < 4096"
    "spec_payload_length ''/'' [''ls'', ''-l''] < 2 ^ 32 - 1"
    by (simp_all add: NUL_def spec_payload_length_def)
  have l8: "spec_payload_length ''/'' [''ls'', ''-l''] = 8"
    by (simp add: spec_payload_length_def)
  from prepare_data_payload [OF h]
  have "\<exists>rd. prepare_data (Some ''/'') True [''ls'', ''-l''] =
               Returned (int (spec_payload_length ''/'' [''ls'', ''-l'']), rd) \<and>
             payload (int (spec_payload_length ''/'' [''ls'', ''-l'']), rd) =
               spec_payload ''/'' [''ls'', ''-l'']"
    by blast
  then have "\<exists>rd. prepare_data (Some ''/'') True [''ls'', ''-l''] = Returned (8, rd) \<and>
      payload (8, rd) = ''/'' @ [NUL] @ ''ls'' @ [NUL] @ ''-l'' @ [NUL]"
    by (simp add: l8 spec_payload_def frame_def)
  moreover have "NUL \<notin> set ''ls''" "NUL \<notin> set ''-l''"
    by (simp_all add: NUL_def)
  ultimately show ?thesis using h by blast
qed

text \<open>
  C7.  Under the same conditions, splitting the bytes that \<open>prepare_data\<close> sends at
  their NULs gives back the working directory and then the arguments, in order.
\<close>

theorem unmarshal_prepare_data:
  assumes "NUL \<notin> set cwd" and "\<forall>a \<in> set argv. NUL \<notin> set a"
    and "length cwd < 4096" and "spec_payload_length cwd argv < 2 ^ 32 - 1"
  shows "\<exists>r. prepare_data (Some cwd) True argv = Returned r \<and> 0 \<le> fst r \<and>
             unmarshal (payload r) = Some (cwd, argv)"
  using prepare_data_spec [OF assms] payload_spec [of cwd argv]
    unmarshal_spec_payload [OF assms(1,2)]
  by simp

theorem unmarshal_prepare_data_witness:
  "NUL \<notin> set ''/tmp'' \<and> NUL \<notin> set ''echo'' \<and> NUL \<notin> set ''hello'' \<and>
   length ''/tmp'' < 4096 \<and>
   spec_payload_length ''/tmp'' [''echo'', ''hello''] < 2 ^ 32 - 1 \<and>
   (\<exists>r. prepare_data (Some ''/tmp'') True [''echo'', ''hello''] = Returned r \<and> 0 \<le> fst r \<and>
      unmarshal (payload r) = Some (''/tmp'', [''echo'', ''hello'']))"
proof -
  have h: "NUL \<notin> set ''/tmp''" "\<forall>a \<in> set [''echo'', ''hello'']. NUL \<notin> set a"
    "length ''/tmp'' < 4096" "spec_payload_length ''/tmp'' [''echo'', ''hello''] < 2 ^ 32 - 1"
    by (simp_all add: NUL_def spec_payload_length_def)
  have "NUL \<notin> set ''echo''" "NUL \<notin> set ''hello''"
    by (simp_all add: NUL_def)
  with unmarshal_prepare_data [OF h] h show ?thesis by blast
qed

section \<open>Properties of the command line\<close>

lemma parse_args_cases:
  assumes "parse_args argv = Parsed new_argv port"
  shows "((strcmp_eq (argv ! 0) ''client'' \<or> strcmp_eq (argv ! 0) ''./client'') \<and>
            strcmp_eq (argv ! 1) ''-p'' \<and> 4 \<le> length argv \<and> str2int (argv ! 2) = Some port \<and>
            0 \<le> port \<and> port \<le> 65535 \<and> new_argv = drop 3 argv) \<or>
         ((strcmp_eq (argv ! 0) ''client'' \<or> strcmp_eq (argv ! 0) ''./client'') \<and>
            \<not> strcmp_eq (argv ! 1) ''-p'' \<and> 2 \<le> length argv \<and> port = SV_DEFAULT_PORT \<and>
            new_argv = drop 1 argv) \<or>
         (\<not> strcmp_eq (argv ! 0) ''client'' \<and> \<not> strcmp_eq (argv ! 0) ''./client'' \<and>
            2 \<le> length argv \<and> port = SV_DEFAULT_PORT \<and> new_argv = argv)"
  using assms unfolding parse_args_def
  by (auto split: if_splits option.splits)

lemma parse_args_other_name:
  "\<not> strcmp_eq (argv ! 0) ''client'' \<Longrightarrow> \<not> strcmp_eq (argv ! 0) ''./client'' \<Longrightarrow>
   2 \<le> length argv \<Longrightarrow> parse_args argv = Parsed argv SV_DEFAULT_PORT"
  by (simp add: parse_args_def)

lemma parse_args_short: "length argv < 2 \<Longrightarrow> parse_args argv = Usage"
  by (simp add: parse_args_def)

text \<open>
  C10, as stated, at the invocation name \<open>/usr/bin/client\<close> with nothing after it:
  the name is neither \<open>client\<close> nor \<open>./client\<close>, yet nothing is forwarded;
  \<open>parse_args\<close> calls \<open>usage\<close>, which ends the process.
\<close>

theorem parse_args_name_alone_counterexample:
  "parse_args [''/usr/bin/client''] = Usage"
  by (simp add: parse_args_def)

text \<open>
  C10, amended.  \<open>parse_args\<close> drops arguments or changes the port only when argument
  0 is \<open>client\<close> or \<open>./client\<close>.  Under any other name followed by at least one
  argument it returns the whole argument vector, name included, with port 3636,
  whatever the arguments are (a \<open>-p\<close> among them is an ordinary argument).  With
  fewer than two arguments in all it calls \<open>usage\<close>, under every name.
\<close>

theorem parse_args_invocation_name:
  "(parse_args argv = Parsed new_argv port \<and> (new_argv \<noteq> argv \<or> port \<noteq> 3636) \<longrightarrow>
      strcmp_eq (argv ! 0) ''client'' \<or> strcmp_eq (argv ! 0) ''./client'') \<and>
   (\<not> strcmp_eq (argv ! 0) ''client'' \<and> \<not> strcmp_eq (argv ! 0) ''./client'' \<and> 2 \<le> length argv \<longrightarrow>
      parse_args argv = Parsed argv 3636) \<and>
   (length argv < 2 \<longrightarrow> parse_args argv = Usage)"
  using parse_args_cases [of argv new_argv port] parse_args_other_name [of argv]
    parse_args_short [of argv]
  by (auto simp: SV_DEFAULT_PORT_def)

theorem parse_args_invocation_name_witness:
  "parse_args [''/usr/bin/client'', ''-p'', ''4000'', ''echo''] =
     Parsed [''/usr/bin/client'', ''-p'', ''4000'', ''echo''] 3636 \<and>
   parse_args [''client'', ''-p'', ''4000'', ''echo'', ''hello''] = Parsed [''echo'', ''hello''] 4000 \<and>
   strcmp_eq ([''client'', ''-p'', ''4000'', ''echo'', ''hello''] ! 0) ''client'' \<and>
   parse_args [''ls''] = Usage"
  using parse_args_invocation_name [of "[''/usr/bin/client'', ''-p'', ''4000'', ''echo'']" "[]" 0]
    parse_args_invocation_name [of "[''client'', ''-p'', ''4000'', ''echo'', ''hello'']"
      "[''echo'', ''hello'']" 4000]
    parse_args_invocation_name [of "[''ls'']" "[]" 0]
    parse_args_scenario
  by (simp add: strcmp_eq_def cstr_def NUL_def)

section \<open>Properties of the entry-point patcher\<close>

lemma length_fold_list_update:
  "length (fold (\<lambda>i p. p[f i := g i]) is p) = length p"
  by (induction "is" arbitrary: p) auto

lemma memcpy_to_memcpy_from:
  "memcpy_to (memcpy_to mem dst bs) dst (memcpy_from mem dst (length bs)) = mem"
proof
  fix a
  show "memcpy_to (memcpy_to mem dst bs) dst (memcpy_from mem dst (length bs)) a = mem a"
    by (simp add: memcpy_to_def memcpy_from_def)
qed

lemma patch_restore_memory:
  "snd (snd (arch_restore_start (snd (arch_patch_start hook start (st, mem))))) = mem"
  using memcpy_to_memcpy_from
    [of mem start "fold (\<lambda>i p. p[8 + i := u_addr_val hook ! i]) [0..<8] (patch st)"]
  by (simp add: arch_patch_start_def arch_restore_start_def Let_def length_fold_list_update)

lemma patched_region:
  "memcpy_from (snd (snd (arch_patch_start hook start (patcher_init, mem)))) start 16 =
     [0x41, 0x00, 0x00, 0x58, 0x20, 0x00, 0x3f, 0xd6] @ u_addr_val hook"
  by (simp add: arch_patch_start_def Let_def patcher_init_def memcpy_from_def memcpy_to_def
      upt_rec [of _ "numeral _"] u_addr_val_def)

lemma restore_return:
  "fst (arch_restore_start (snd (arch_patch_start hook start (patcher_init, mem)))) = 8"
  by (simp add: arch_patch_start_def arch_restore_start_def Let_def patcher_init_def
      memcpy_from_def)

text \<open>
  C9.  Whatever the memory holds, whatever the target address and the address of the
  hook, and whatever the statics held before: after \<open>arch_patch_start\<close> followed by
  \<open>arch_restore_start\<close> the memory is the memory before, so the sixteen bytes of
  the target are their original bytes.  In between the target does hold the
  trampoline of \<open>sizeof patch = 16\<close> bytes, the two instructions and the address of
  the hook, and the restore returns 8.
\<close>

theorem patch_then_restore:
  "snd (snd (arch_restore_start (snd (arch_patch_start hook start (st, mem))))) = mem \<and>
   memcpy_from (snd (snd (arch_restore_start (snd (arch_patch_start hook start (st, mem))))))
     start 16 = memcpy_from mem start 16 \<and>
   length (patch patcher_init) = 16 \<and>
   memcpy_from (snd (snd (arch_patch_start hook start (patcher_init, mem)))) start 16 =
     [0x41, 0x00, 0x00, 0x58, 0x20, 0x00, 0x3f, 0xd6] @ u_addr_val hook \<and>
   fst (arch_restore_start (snd (arch_patch_start hook start (patcher_init, mem)))) = 8"
proof -
  have "length (patch patcher_init) = 16"
    by (simp add: patcher_init_def)
  then show ?thesis
    using patch_restore_memory [of hook start st mem] patched_region [of hook start mem]
      restore_return [of hook start mem]
    by simp
qed

section \<open>Properties of the relay loop\<close>

lemmas relay_defs = relay_iter_def Let_def service_def handle_poll_event_def relay_init_def
  turn_def quiet_def poll_entry_def events_error_def POLLIN_def POLLHUP_def POLLERR_def
  POLLNVAL_def STDIN_FILENO_def STDOUT_FILENO_def STDERR_FILENO_def

lemma upt3: "[0..<3] = [0, 1, 2]"
  by (simp add: upt_rec)

lemma relay_wf_list:
  "relay_wf st \<Longrightarrow>
     \<exists>a b c. fds st = [a, b, c] \<and> events a = POLLIN \<and> events b = POLLIN \<and> events c = POLLIN"
  unfolding relay_wf_def
  by (cases "fds st"; simp; rename_tac x xs; case_tac xs; simp; rename_tac y ys; case_tac ys; simp)

lemma relay_wf_init: "relay_wf (relay_init so se)"
  by (simp add: relay_wf_def relay_init_def)

text \<open>\<open>events_error\<close> looks at \<^verbatim>\<open>events\<close>, so in the loop it is 0 whatever \<^verbatim>\<open>poll\<close> reports.\<close>

lemma events_error_polled:
  assumes "relay_wf st"
  shows "events_error (map (\<lambda>i. poll_entry (fds st ! i) (srcs e i)) [0..<length (fds st)]) 3 = 0"
proof -
  from relay_wf_list [OF assms] obtain a b c where f: "fds st = [a, b, c]"
    and ev: "events a = POLLIN" "events b = POLLIN" "events c = POLLIN" by blast
  show ?thesis
    by (simp add: f upt3 events_error_def poll_entry_def ev POLLIN_def POLLHUP_def POLLERR_def
        POLLNVAL_def)
qed

lemma relay_poll_fails:
  "poll_ret e = -1 \<Longrightarrow> relay s st (e # es) = Exited (st\<lparr>log := log st @ [SysPoll (-1)]\<rparr>)"
  by (simp add: relay_iter_def)

text \<open>The invariant holds at the start of the loop and after every turn.\<close>

lemma handle_poll_event_events:
  "handle_poll_event pfd out_fd is_sock amnt w = (r, eof, pfd', acts) \<Longrightarrow> events pfd' = events pfd"
  by (auto simp: handle_poll_event_def Let_def split: if_splits)

lemma relay_wf_update:
  "relay_wf st \<Longrightarrow> events p = POLLIN \<Longrightarrow> relay_wf (st\<lparr>fds := (fds st)[i := p], log := l\<rparr>)"
  unfolding relay_wf_def list_all_iff
  by (auto dest: subsetD [OF set_update_subset_insert])

lemma service_wf:
  assumes "relay_wf st" and "i < 3"
  shows "relay_wf (snd (service i out_fd is_sock e st))"
proof (cases "revents (fds st ! i) AND POLLIN \<noteq> 0")
  case False
  with assms show ?thesis by (simp add: service_def)
next
  case True
  obtain r eof pfd acts where h:
    "handle_poll_event (fds st ! i) out_fd is_sock (rd (srcs e i)) (wr (srcs e i)) = (r, eof, pfd, acts)"
    by (cases "handle_poll_event (fds st ! i) out_fd is_sock (rd (srcs e i)) (wr (srcs e i))")
  from assms have "events (fds st ! i) = POLLIN"
    by (simp add: relay_wf_def list_all_length)
  with handle_poll_event_events [OF h] have "events pfd = POLLIN" by simp
  from relay_wf_update [OF assms(1) this] True h show ?thesis
    by (simp add: service_def)
qed

lemma poll_wf:
  assumes "relay_wf st"
  shows "relay_wf (st\<lparr>fds := map (\<lambda>i. poll_entry (fds st ! i) (srcs e i)) [0..<length (fds st)]\<rparr>)"
  using assms by (simp add: relay_wf_def list_all_length poll_entry_def)

lemma log_wf: "relay_wf (st\<lparr>log := l\<rparr>) = relay_wf st"
  by (simp add: relay_wf_def)

lemma relay_iter_wf:
  assumes "relay_wf st"
  shows "relay_wf (snd (relay_iter sock_stdin st e))"
proof -
  let ?st0 = "st\<lparr>log := log st @ [SysPoll (poll_ret e)]\<rparr>"
  let ?st1 = "?st0\<lparr>fds := map (\<lambda>i. poll_entry (fds ?st0 ! i) (srcs e i)) [0..<length (fds ?st0)]\<rparr>"
  let ?s0 = "service 0 STDOUT_FILENO True e ?st1"
  let ?s1 = "service 1 STDERR_FILENO True e (snd ?s0)"
  let ?s2 = "service 2 sock_stdin False e (snd ?s1)"
  have w0: "relay_wf ?st0" using assms by (simp add: log_wf)
  have w1: "relay_wf ?st1" by (rule poll_wf [OF w0])
  have w2: "relay_wf (snd ?s0)" by (rule service_wf [OF w1]) simp
  have w3: "relay_wf (snd ?s1)" by (rule service_wf [OF w2]) simp
  have w4: "relay_wf (snd ?s2)" by (rule service_wf [OF w3]) simp
  have "snd (relay_iter sock_stdin st e) \<in> {?st0, ?st1, snd ?s0, snd ?s1, snd ?s2}"
    by (simp add: relay_iter_def Let_def split_beta)
  with w0 w1 w2 w3 w4 show ?thesis by auto
qed

lemma relay_exited_wf:
  "relay_wf st \<Longrightarrow> relay sock_stdin st es = Exited st' \<Longrightarrow> relay_wf st'"
proof (induction es arbitrary: st)
  case Nil
  then show ?case by simp
next
  case (Cons e es)
  obtain b st1 where it: "relay_iter sock_stdin st e = (b, st1)"
    by (cases "relay_iter sock_stdin st e")
  from relay_iter_wf [OF Cons.prems(1), of sock_stdin e] it have w: "relay_wf st1" by simp
  show ?case
  proof (cases b)
    case True
    with Cons.prems it w show ?thesis by simp
  next
    case False
    with Cons.prems it have "relay sock_stdin st1 es = Exited st'" by simp
    from Cons.IH [OF w this] show ?thesis .
  qed
qed

lemma relay_iter_stdout_closed:
  assumes wf: "relay_wf st" and p: "poll_ret e \<noteq> -1"
    and r: "readable st e 0" and eof: "rd (srcs e 0) \<le> 0"
  shows "\<exists>st'. relay_iter sock_stdin st e = (True, st') \<and> fd (fds st' ! 0) = -1 \<and>
           log st' = log st @ [SysPoll (poll_ret e), SysRead (fd (fds st ! 0)) (rd (srcs e 0)),
                      SysShutdown (fd (fds st ! 0)), SysClose (fd (fds st ! 0))]"
proof -
  from relay_wf_list [OF wf] obtain a b c where f: "fds st = [a, b, c]" by blast
  have ee: "events_error (map (\<lambda>i. poll_entry (fds st ! i) (srcs e i)) [0..<length (fds st)]) 3 = 0"
    by (rule events_error_polled [OF wf])
  have fd0: "fd (poll_entry a (srcs e 0)) = fd a"
    by (simp add: poll_entry_def)
  show ?thesis
    using p r eof ee fd0
    by (simp add: relay_iter_def Let_def service_def handle_poll_event_def f upt3 readable_def)
qed

lemma relay_iter_stderr_closed:
  assumes wf: "relay_wf st" and p: "poll_ret e \<noteq> -1"
    and r0: "\<not> readable st e 0 \<or> relayed e 0"
    and r: "readable st e 1" and eof: "rd (srcs e 1) \<le> 0"
  shows "\<exists>st'. relay_iter sock_stdin st e = (True, st') \<and> fd (fds st' ! 1) = -1 \<and>
           log st' = log st @ [SysPoll (poll_ret e)] @
             (if readable st e 0
              then [SysRead (fd (fds st ! 0)) (rd (srcs e 0)),
                    SysWrite STDOUT_FILENO (rd (srcs e 0)) (wr (srcs e 0))]
              else []) @
             [SysRead (fd (fds st ! 1)) (rd (srcs e 1)),
              SysShutdown (fd (fds st ! 1)), SysClose (fd (fds st ! 1))]"
proof -
  from relay_wf_list [OF wf] obtain a b c where f: "fds st = [a, b, c]" by blast
  have ee: "events_error (map (\<lambda>i. poll_entry (fds st ! i) (srcs e i)) [0..<length (fds st)]) 3 = 0"
    by (rule events_error_polled [OF wf])
  have fd0: "fd (poll_entry a (srcs e 0)) = fd a" "fd (poll_entry b (srcs e (Suc 0))) = fd b"
    by (simp_all add: poll_entry_def)
  show ?thesis
    using p r r0 eof ee fd0
    by (auto simp add: relay_iter_def Let_def service_def handle_poll_event_def f upt3
        readable_def relayed_def)
qed

text \<open>End of file on the local stdin closes the remote stdin socket and does not leave the loop.\<close>

lemma relay_iter_stdin_eof:
  assumes wf: "relay_wf st" and p: "poll_ret e \<noteq> -1"
    and r0: "\<not> readable st e 0 \<or> relayed e 0"
    and r1: "\<not> readable st e 1 \<or> relayed e 1"
    and r: "readable st e 2" and eof: "rd (srcs e 2) = 0"
  shows "\<exists>st'. relay_iter sock_stdin st e = (False, st') \<and> fd (fds st' ! 2) = -1 \<and>
           (\<exists>l. log st' = l @ [SysRead (fd (fds st ! 2)) 0, SysShutdown sock_stdin, SysClose sock_stdin])"
proof -
  from relay_wf_list [OF wf] obtain a b c where f: "fds st = [a, b, c]" by blast
  have ee: "events_error (map (\<lambda>i. poll_entry (fds st ! i) (srcs e i)) [0..<length (fds st)]) 3 = 0"
    by (rule events_error_polled [OF wf])
  have fd0: "fd (poll_entry c (srcs e 2)) = fd c"
    by (simp add: poll_entry_def)
  have two: "Suc (Suc 0) = 2" by simp
  show ?thesis
    using p r r0 r1 eof ee fd0
    by (auto simp add: relay_iter_def Let_def service_def handle_poll_event_def f upt3
        readable_def relayed_def two)
qed

text \<open>
  C1, as stated, on a run where the remote stdout is at end of file while the remote
  stderr has five bytes to read, in this turn and in the next: the stdout socket is
  shut down and closed and the loop is left; stderr is not serviced in either turn.
\<close>

theorem relay_stdout_eof_counterexample:
  "relay 6 (relay_init 4 5) [stdout_eof_turn, stderr_data_turn] =
     Exited \<lparr>fds = [\<lparr>fd = -1, events = POLLIN, revents = POLLIN\<rparr>,
                    \<lparr>fd = 5, events = POLLIN, revents = POLLIN\<rparr>,
                    \<lparr>fd = 0, events = POLLIN, revents = 0\<rparr>],
             log = [SysPoll 2, SysRead 4 0, SysShutdown 4, SysClose 4]\<rparr>"
  by (simp add: stdout_eof_turn_def stderr_data_turn_def relay_defs upt3)

text \<open>
  C1, amended.  In a turn of the loop, when the remote stdout is readable and its
  \<^verbatim>\<open>read\<close> gives end of file or an error, that socket is shut down and closed, its
  entry gets the descriptor -1, and the loop is left at once: neither stderr nor
  stdin is serviced, and there is no further wait.  The same holds for the remote
  stderr, after stdout has been serviced when it was readable.
\<close>

theorem relay_remote_close_ends_loop:
  assumes "relay_wf st" and "poll_ret e \<noteq> -1"
  shows "(readable st e 0 \<and> rd (srcs e 0) \<le> 0 \<longrightarrow>
            (\<exists>st'. relay sock_stdin st (e # es) = Exited st' \<and> fd (fds st' ! 0) = -1 \<and>
               log st' = log st @ [SysPoll (poll_ret e), SysRead (fd (fds st ! 0)) (rd (srcs e 0)),
                      SysShutdown (fd (fds st ! 0)), SysClose (fd (fds st ! 0))])) \<and>
         ((\<not> readable st e 0 \<or> relayed e 0) \<and> readable st e 1 \<and> rd (srcs e 1) \<le> 0 \<longrightarrow>
            (\<exists>st'. relay sock_stdin st (e # es) = Exited st' \<and> fd (fds st' ! 1) = -1 \<and>
               log st' = log st @ [SysPoll (poll_ret e)] @
                 (if readable st e 0
                  then [SysRead (fd (fds st ! 0)) (rd (srcs e 0)),
                        SysWrite STDOUT_FILENO (rd (srcs e 0)) (wr (srcs e 0))]
                  else []) @
                 [SysRead (fd (fds st ! 1)) (rd (srcs e 1)),
                  SysShutdown (fd (fds st ! 1)), SysClose (fd (fds st ! 1))]))"
  using relay_iter_stdout_closed [OF assms, of sock_stdin]
    relay_iter_stderr_closed [OF assms, of sock_stdin]
  by auto

theorem relay_remote_close_ends_loop_witness:
  "relay_wf (relay_init 4 5) \<and> poll_ret stdout_eof_turn \<noteq> -1 \<and>
   readable (relay_init 4 5) stdout_eof_turn 0 \<and> rd (srcs stdout_eof_turn 0) \<le> 0 \<and>
   (\<exists>st'. relay 6 (relay_init 4 5) [stdout_eof_turn, stderr_data_turn] = Exited st' \<and>
      fd (fds st' ! 0) = -1 \<and> log st' = [SysPoll 2, SysRead 4 0, SysShutdown 4, SysClose 4]) \<and>
   poll_ret stderr_eof_turn \<noteq> -1 \<and> relayed stderr_eof_turn 0 \<and>
   readable (relay_init 4 5) stderr_eof_turn 1 \<and> rd (srcs stderr_eof_turn 1) \<le> 0 \<and>
   (\<exists>st'. relay 6 (relay_init 4 5) [stderr_eof_turn, stderr_data_turn] = Exited st' \<and>
      fd (fds st' ! 1) = -1 \<and>
      log st' = [SysPoll 2, SysRead 4 7, SysWrite 1 7 7, SysRead 5 0, SysShutdown 5, SysClose 5])"
proof -
  have h: "relay_wf (relay_init 4 5)" "poll_ret stdout_eof_turn \<noteq> -1"
    "poll_ret stderr_eof_turn \<noteq> -1"
    by (simp_all add: relay_wf_init stdout_eof_turn_def stderr_eof_turn_def turn_def)
  have r: "readable (relay_init 4 5) stdout_eof_turn 0" "rd (srcs stdout_eof_turn 0) \<le> 0"
    "relayed stderr_eof_turn 0" "readable (relay_init 4 5) stderr_eof_turn 0"
    "readable (relay_init 4 5) stderr_eof_turn 1" "rd (srcs stderr_eof_turn 1) \<le> 0"
    by (simp_all add: readable_def relayed_def stdout_eof_turn_def stderr_eof_turn_def relay_defs)
  from relay_remote_close_ends_loop [OF h(1) h(2), of 6 "[stderr_data_turn]"] r
  have a: "\<exists>st'. relay 6 (relay_init 4 5) [stdout_eof_turn, stderr_data_turn] = Exited st' \<and>
      fd (fds st' ! 0) = -1 \<and> log st' = [SysPoll 2, SysRead 4 0, SysShutdown 4, SysClose 4]"
    by (simp add: stdout_eof_turn_def relay_init_def turn_def)
  from relay_remote_close_ends_loop [OF h(1) h(3), of 6 "[stderr_data_turn]"] r
  have b: "\<exists>st'. relay 6 (relay_init 4 5) [stderr_eof_turn, stderr_data_turn] = Exited st' \<and>
      fd (fds st' ! 1) = -1 \<and>
      log st' = [SysPoll 2, SysRead 4 7, SysWrite 1 7 7, SysRead 5 0, SysShutdown 5, SysClose 5]"
    by (simp add: stderr_eof_turn_def relay_init_def turn_def STDOUT_FILENO_def)
  from h r a b show ?thesis by blast
qed

text \<open>
  C2 at a turn in which \<^verbatim>\<open>poll\<close> reports a hangup, and nothing else, on the local stdin
  (a pipe whose writer has gone): \<^verbatim>\<open>revents\<close> of the entry is \<^verbatim>\<open>POLLHUP\<close>, \<open>events_error\<close>
  is 0 all the same, the loop is not left, and in the next turn it relays from stderr
  and waits again.
\<close>

theorem relay_hangup_not_noticed:
  "revents (fds (snd (relay_iter 6 (relay_init 4 5) stdin_hup_turn)) ! 2) = POLLHUP \<and>
   events_error (fds (snd (relay_iter 6 (relay_init 4 5) stdin_hup_turn))) 3 = 0 \<and>
   fst (relay_iter 6 (relay_init 4 5) stdin_hup_turn) = False \<and>
   relay 6 (relay_init 4 5) [stdin_hup_turn, stderr_data_turn] =
     Polling \<lparr>fds = [\<lparr>fd = 4, events = POLLIN, revents = 0\<rparr>,
                     \<lparr>fd = 5, events = POLLIN, revents = POLLIN\<rparr>,
                     \<lparr>fd = 0, events = POLLIN, revents = 0\<rparr>],
              log = [SysPoll 1, SysPoll 1, SysRead 5 5, SysWrite 2 5 5]\<rparr>"
  by (simp add: stdin_hup_turn_def stderr_data_turn_def relay_defs upt3)

section \<open>Properties of the client\<close>

lemmas main_defs = main_def startup_def connect_io_def do_connect_def send_request_def
  send_all_def example_env_def example_argv_def sock_no_def refuse_def accept_all_def
  sends_whole_def EXIT_FAILURE_def wait_return_def

lemma prepare_data_example:
  "prepare_data (Some ''/tmp'') True [''echo'', ''hello''] =
     Returned (16, \<lparr>argc = [0, 0, 0, 2], amt_bytes = [0, 0, 0, 16],
                   cwd_argv = ''/tmp'' @ [NUL] @ ''echo'' @ [NUL] @ ''hello'' @ [NUL, NUL]\<rparr>)"
proof -
  have "prepare_data (Some ''/tmp'') True [''echo'', ''hello''] =
          Returned (int (spec_payload_length ''/tmp'' [''echo'', ''hello'']),
             \<lparr>argc = int32_to_msg (of_nat (length [''echo'', ''hello''])),
              amt_bytes = int32_to_msg (of_nat (spec_payload_length ''/tmp'' [''echo'', ''hello''])),
              cwd_argv = spec_payload ''/tmp'' [''echo'', ''hello''] @ [NUL]\<rparr>)"
    by (rule prepare_data_spec) (simp_all add: NUL_def spec_payload_length_def)
  then show ?thesis
    by (simp add: spec_payload_length_def int32_to_msg_def spec_payload_def frame_def)
qed

lemma startup_example:
  "startup (example_env accept_all polls rcv) example_argv =
     Inr ((3, 4, 5, 6),
       [SysSocket 3, SysConnect 3 4000 0, SysSendBytes 3 [0, 0, 0, 2], SysSendBytes 3 [0, 0, 0, 16],
        SysSendChars 3 (''/tmp'' @ [NUL] @ ''echo'' @ [NUL] @ ''hello'' @ [NUL]),
        SysSocket 4, SysConnect 4 4001 0, SysSocket 5, SysConnect 5 4002 0,
        SysSocket 6, SysConnect 6 4003 0])"
  by (simp add: main_defs parse_args_scenario prepare_data_example)

lemma relay_example:
  "relay 6 (relay_init 4 5) (e_polls (example_env conn [stdout_eof_turn] rcv)) =
     Exited \<lparr>fds = [\<lparr>fd = -1, events = POLLIN, revents = POLLIN\<rparr>,
                    \<lparr>fd = 5, events = POLLIN, revents = POLLIN\<rparr>,
                    \<lparr>fd = 0, events = POLLIN, revents = 0\<rparr>],
             log = [SysPoll 2, SysRead 4 0, SysShutdown 4, SysClose 4]\<rparr>"
  by (simp add: example_env_def stdout_eof_turn_def relay_defs upt3)

lemma send_request_Inr:
  assumes "send_request en sock r = Inr as"
  shows "as = request sock r"
proof -
  obtain amnt rd where r: "r = (amnt, rd)" by (cases r)
  obtain c0 w0 where s0: "send_all sock (argc rd) 4 (e_send en 0) = (c0, w0)"
    by (cases "send_all sock (argc rd) 4 (e_send en 0)")
  obtain c1 w1 where s1: "send_all sock (amt_bytes rd) 4 (e_send en 1) = (c1, w1)"
    by (cases "send_all sock (amt_bytes rd) 4 (e_send en 1)")
  obtain c2 w2 where s2: "send_all sock (cwd_argv rd) (nat amnt) (e_send en 2) = (c2, w2)"
    by (cases "send_all sock (cwd_argv rd) (nat amnt) (e_send en 2)")
  from assms obtain r0 r1 r2
    where c: "c0 = Returned r0" "0 \<le> r0" "c1 = Returned r1" "0 \<le> r1" "c2 = Returned r2" "0 \<le> r2"
      and as: "as = [SysSendBytes sock w0, SysSendBytes sock w1, SysSendChars sock w2]"
    by (auto simp: send_request_def r s0 s1 s2 simp del: One_nat_def split: call.splits if_splits)
  from send_all_sound [OF s0 [unfolded c]] c have "w0 = take 4 (argc rd)" by auto
  moreover from send_all_sound [OF s1 [unfolded c]] c have "w1 = take 4 (amt_bytes rd)" by auto
  moreover from send_all_sound [OF s2 [unfolded c]] c have "w2 = take (nat amnt) (cwd_argv rd)"
    by auto
  ultimately show ?thesis by (simp add: as r request_def payload_def)
qed

lemma main_control_refused:
  assumes pa: "parse_args argv = Parsed new_argv port"
    and pd: "prepare_data (e_cwd en) (e_mem_ok en) new_argv = Returned r" and ok: "0 \<le> fst r"
    and sk: "\<forall>k<4. 0 \<le> e_socket en k"
    and c0: "e_connect en 0 < 0"
  shows "main en argv =
          (Exit EXIT_FAILURE,
           [SysSocket (e_socket en 0), SysConnect (e_socket en 0) (word_of_int port) (e_connect en 0),
            Die ''Unable to connect on sv port %d!''])"
proof -
  from sk have "\<not> e_socket en 0 < 0" by (simp add: not_less)
  with pa pd ok c0 show ?thesis
    by (simp add: main_def startup_def do_connect_def Let_def)
qed

lemma main_relay_refused:
  assumes pa: "parse_args argv = Parsed new_argv port"
    and pd: "prepare_data (e_cwd en) (e_mem_ok en) new_argv = Returned r" and ok: "0 \<le> fst r"
    and sk: "\<forall>k<4. 0 \<le> e_socket en k"
    and c0: "0 \<le> e_connect en 0"
    and sr: "send_request en (e_socket en 0) r = Inr as"
  shows "(e_connect en 1 < 0 \<longrightarrow>
           main en argv =
            (Exit EXIT_FAILURE,
             [SysSocket (e_socket en 0), SysConnect (e_socket en 0) (word_of_int port) (e_connect en 0)] @
             request (e_socket en 0) r @
             [SysSocket (e_socket en 1),
              SysConnect (e_socket en 1) (word_of_int (port + 1)) (e_connect en 1),
              Die ''Unable to connect on stdout port %d!''])) \<and>
         (0 \<le> e_connect en 1 \<and> e_connect en 2 < 0 \<longrightarrow>
           main en argv =
            (Exit EXIT_FAILURE,
             [SysSocket (e_socket en 0), SysConnect (e_socket en 0) (word_of_int port) (e_connect en 0)] @
             request (e_socket en 0) r @
             [SysSocket (e_socket en 1),
              SysConnect (e_socket en 1) (word_of_int (port + 1)) (e_connect en 1),
              SysSocket (e_socket en 2),
              SysConnect (e_socket en 2) (word_of_int (port + 2)) (e_connect en 2),
              Die ''Unable to connect on stderr port %d!''])) \<and>
         (0 \<le> e_connect en 1 \<and> 0 \<le> e_connect en 2 \<and> e_connect en 3 < 0 \<longrightarrow>
           main en argv =
            (Exit EXIT_FAILURE,
             [SysSocket (e_socket en 0), SysConnect (e_socket en 0) (word_of_int port) (e_connect en 0)] @
             request (e_socket en 0) r @
             [SysSocket (e_socket en 1),
              SysConnect (e_socket en 1) (word_of_int (port + 1)) (e_connect en 1),
              SysSocket (e_socket en 2),
              SysConnect (e_socket en 2) (word_of_int (port + 2)) (e_connect en 2),
              SysSocket (e_socket en 3),
              SysConnect (e_socket en 3) (word_of_int (port + 3)) (e_connect en 3),
              Die ''Unable to connect on stdin port %d!'']))"
proof -
  have s: "\<not> e_socket en 0 < 0" "\<not> e_socket en 1 < 0" "\<not> e_socket en 2 < 0"
    "\<not> e_socket en 3 < 0"
    using sk by (simp_all add: not_less)
  note as = send_request_Inr [OF sr]
  show ?thesis
    using pa pd ok c0 sr s
    by (simp add: main_def startup_def do_connect_def connect_io_def Let_def as del: One_nat_def)
qed

text \<open>
  C3, as stated, on the run of \<open>client -p 4000 echo hello\<close> in which the connect to the
  stdout port 4001 is refused: the process exits with failure, but the count, the
  length and the payload have already gone out on the control connection.
\<close>

theorem connect_stdout_refused_counterexample:
  "main (example_env (refuse 1) [] None) example_argv =
     (Exit 1,
       [SysSocket 3, SysConnect 3 4000 0, SysSendBytes 3 [0, 0, 0, 2], SysSendBytes 3 [0, 0, 0, 16],
        SysSendChars 3 (''/tmp'' @ [NUL] @ ''echo'' @ [NUL] @ ''hello'' @ [NUL]),
        SysSocket 4, SysConnect 4 4001 (-1), Die ''Unable to connect on stdout port %d!''])"
  by (simp add: main_defs parse_args_scenario prepare_data_example)

text \<open>
  C3, amended.  After the arguments are parsed and the request is built, with sockets
  available: the connections are attempted in the order control, stdout, stderr,
  stdin, on the port and its three successors (as 16-bit numbers), and the first
  connect that fails ends the process with the failure status, right after the
  error message and with no later connection attempted.  When the control connect
  fails nothing has been sent.  When one of the three relay connects fails, the
  whole request has been sent on the control connection before, and nothing on any
  relay connection.
\<close>

theorem connect_failure_fatal:
  assumes "parse_args argv = Parsed new_argv port"
    and "prepare_data (e_cwd en) (e_mem_ok en) new_argv = Returned r" and "0 \<le> fst r"
    and "\<forall>k<4. 0 \<le> e_socket en k"
  shows "(e_connect en 0 < 0 \<longrightarrow>
           main en argv =
            (Exit EXIT_FAILURE,
             [SysSocket (e_socket en 0), SysConnect (e_socket en 0) (word_of_int port) (e_connect en 0),
              Die ''Unable to connect on sv port %d!''])) \<and>
         (0 \<le> e_connect en 0 \<and> send_request en (e_socket en 0) r = Inr as \<and> e_connect en 1 < 0 \<longrightarrow>
           main en argv =
            (Exit EXIT_FAILURE,
             [SysSocket (e_socket en 0), SysConnect (e_socket en 0) (word_of_int port) (e_connect en 0)] @
             request (e_socket en 0) r @
             [SysSocket (e_socket en 1),
              SysConnect (e_socket en 1) (word_of_int (port + 1)) (e_connect en 1),
              Die ''Unable to connect on stdout port %d!''])) \<and>
         (0 \<le> e_connect en 0 \<and> send_request en (e_socket en 0) r = Inr as \<and>
          0 \<le> e_connect en 1 \<and> e_connect en 2 < 0 \<longrightarrow>
           main en argv =
            (Exit EXIT_FAILURE,
             [SysSocket (e_socket en 0), SysConnect (e_socket en 0) (word_of_int port) (e_connect en 0)] @
             request (e_socket en 0) r @
             [SysSocket (e_socket en 1),
              SysConnect (e_socket en 1) (word_of_int (port + 1)) (e_connect en 1),
              SysSocket (e_socket en 2),
              SysConnect (e_socket en 2) (word_of_int (port + 2)) (e_connect en 2),
              Die ''Unable to connect on stderr port %d!''])) \<and>
         (0 \<le> e_connect en 0 \<and> send_request en (e_socket en 0) r = Inr as \<and>
          0 \<le> e_connect en 1 \<and> 0 \<le> e_connect en 2 \<and> e_connect en 3 < 0 \<longrightarrow>
           main en argv =
            (Exit EXIT_FAILURE,
             [SysSocket (e_socket en 0), SysConnect (e_socket en 0) (word_of_int port) (e_connect en 0)] @
             request (e_socket en 0) r @
             [SysSocket (e_socket en 1),
              SysConnect (e_socket en 1) (word_of_int (port + 1)) (e_connect en 1),
              SysSocket (e_socket en 2),
              SysConnect (e_socket en 2) (word_of_int (port + 2)) (e_connect en 2),
              SysSocket (e_socket en 3),
              SysConnect (e_socket en 3) (word_of_int (port + 3)) (e_connect en 3),
              Die ''Unable to connect on stdin port %d!'']))"
  using main_control_refused [OF assms] main_relay_refused [OF assms, of as]
  by blast

theorem connect_failure_fatal_witness:
  "parse_args example_argv = Parsed [''echo'', ''hello''] 4000 \<and>
   0 \<le> e_socket (example_env (refuse 0) [] None) 0 \<and>
   0 \<le> e_socket (example_env (refuse 0) [] None) 1 \<and>
   0 \<le> e_socket (example_env (refuse 0) [] None) 2 \<and>
   0 \<le> e_socket (example_env (refuse 0) [] None) 3 \<and>
   e_connect (example_env (refuse 0) [] None) 0 < 0 \<and>
   main (example_env (refuse 0) [] None) example_argv =
     (Exit 1, [SysSocket 3, SysConnect 3 4000 (-1), Die ''Unable to connect on sv port %d!'']) \<and>
   e_connect (example_env (refuse 2) [] None) 2 < 0 \<and>
   main (example_env (refuse 2) [] None) example_argv =
     (Exit 1,
       [SysSocket 3, SysConnect 3 4000 0, SysSendBytes 3 [0, 0, 0, 2], SysSendBytes 3 [0, 0, 0, 16],
        SysSendChars 3 (''/tmp'' @ [NUL] @ ''echo'' @ [NUL] @ ''hello'' @ [NUL]),
        SysSocket 4, SysConnect 4 4001 0, SysSocket 5, SysConnect 5 4002 (-1),
        Die ''Unable to connect on stderr port %d!''])"
proof -
  let ?r = "(16 :: int, \<lparr>argc = [0, 0, 0, 2], amt_bytes = [0, 0, 0, 16],
                  cwd_argv = ''/tmp'' @ [NUL] @ ''echo'' @ [NUL] @ ''hello'' @ [NUL, NUL]\<rparr>)"
  let ?as = "[SysSendBytes 3 [0, 0, 0, 2], SysSendBytes 3 [0, 0, 0, 16],
              SysSendChars 3 (''/tmp'' @ [NUL] @ ''echo'' @ [NUL] @ ''hello'' @ [NUL])]"
  have pa: "parse_args example_argv = Parsed [''echo'', ''hello''] 4000"
    by (simp add: example_argv_def parse_args_scenario)
  have pd: "prepare_data (e_cwd (example_env c [] None)) (e_mem_ok (example_env c [] None))
              [''echo'', ''hello''] = Returned ?r" for c
    by (simp add: example_env_def prepare_data_example)
  have ok: "0 \<le> fst ?r" by simp
  have sk: "\<forall>k<4. 0 \<le> e_socket (example_env c [] None) k" for c
    by (simp add: example_env_def sock_no_def)
  have sr: "send_request (example_env c [] None) (e_socket (example_env c [] None) 0) ?r = Inr ?as"
    for c
    by (simp add: example_env_def sock_no_def send_request_def send_all_def sends_whole_def)
  have c: "e_connect (example_env (refuse 0) [] None) 0 < 0"
    "e_connect (example_env (refuse 2) [] None) 2 < 0"
    by (simp_all add: example_env_def refuse_def)
  from connect_failure_fatal [OF pa pd ok sk, of "refuse 0" ?as] c
  have a: "main (example_env (refuse 0) [] None) example_argv =
     (Exit 1, [SysSocket 3, SysConnect 3 4000 (-1), Die ''Unable to connect on sv port %d!''])"
    by (simp add: example_env_def refuse_def sock_no_def EXIT_FAILURE_def)
  from connect_failure_fatal [OF pa pd ok sk, of "refuse 2" ?as] sr [of "refuse 2"]
  have b: "main (example_env (refuse 2) [] None) example_argv =
     (Exit 1,
       [SysSocket 3, SysConnect 3 4000 0, SysSendBytes 3 [0, 0, 0, 2], SysSendBytes 3 [0, 0, 0, 16],
        SysSendChars 3 (''/tmp'' @ [NUL] @ ''echo'' @ [NUL] @ ''hello'' @ [NUL]),
        SysSocket 4, SysConnect 4 4001 0, SysSocket 5, SysConnect 5 4002 (-1),
        Die ''Unable to connect on stderr port %d!''])"
    by (simp add: example_env_def refuse_def sock_no_def EXIT_FAILURE_def request_def payload_def)
  have sk4: "0 \<le> e_socket (example_env (refuse 0) [] None) 0"
    "0 \<le> e_socket (example_env (refuse 0) [] None) 1"
    "0 \<le> e_socket (example_env (refuse 0) [] None) 2"
    "0 \<le> e_socket (example_env (refuse 0) [] None) 3"
    by (simp_all add: example_env_def sock_no_def)
  from pa sk4 c a b show ?thesis by blast
qed

lemma wait_return_status:
  "fst (wait_return en socks fs) =
     Return (case e_recv en of None \<Rightarrow> 42
             | Some bs \<Rightarrow> if 4 \<le> length bs then sint (msg_to_int32 (take 4 bs)) else 42)"
  by (cases socks) (auto simp: wait_return_def Let_def split: option.splits)

lemma main_after_relay:
  assumes "startup en argv = Inr ((sock, so, se, si), as)"
    and "relay si (relay_init so se) (e_polls en) = Exited st"
  shows "fst (main en argv) =
     Return (case e_recv en of None \<Rightarrow> 42
             | Some bs \<Rightarrow> if 4 \<le> length bs then sint (msg_to_int32 (take 4 bs)) else 42)"
proof -
  obtain x aw where w: "wait_return en (sock, so, se, si) (fds st) = (x, aw)"
    by (cases "wait_return en (sock, so, se, si) (fds st)")
  with wait_return_status [of en "(sock, so, se, si)" "fds st"]
  have "x = Return (case e_recv en of None \<Rightarrow> 42
             | Some bs \<Rightarrow> if 4 \<le> length bs then sint (msg_to_int32 (take 4 bs)) else 42)"
    by simp
  with assms w show ?thesis by (simp add: main_def)
qed

text \<open>
  C4.  When the start of \<open>main\<close> has gone through and the relay loop has been left,
  \<open>main\<close> returns; the value is 42 when the \<^verbatim>\<open>recv\<close> on the control connection fails
  or fewer than four bytes have arrived, and otherwise the 32-bit signed value
  decoded from the four bytes received, which is the value whose big-endian
  encoding is these four bytes.
\<close>

theorem exit_status_after_relay:
  assumes "startup en argv = Inr ((sock, so, se, si), as)"
    and "relay si (relay_init so se) (e_polls en) = Exited st"
  shows "fst (main en argv) =
           Return (case e_recv en of
                     None \<Rightarrow> 42
                   | Some bs \<Rightarrow> if 4 \<le> length bs then sint (msg_to_int32 (take 4 bs)) else 42) \<and>
         int32_to_msg (word_of_int (sint (msg_to_int32 [a, b, c, d]))) = [a, b, c, d]"
  using main_after_relay [OF assms] int32_to_msg_msg_to_int32 [of a b c d]
  by simp

theorem exit_status_after_relay_witness:
  "startup (example_env accept_all [stdout_eof_turn] (Some [0, 0, 0, 7])) example_argv =
     Inr ((3, 4, 5, 6),
       [SysSocket 3, SysConnect 3 4000 0, SysSendBytes 3 [0, 0, 0, 2], SysSendBytes 3 [0, 0, 0, 16],
        SysSendChars 3 (''/tmp'' @ [NUL] @ ''echo'' @ [NUL] @ ''hello'' @ [NUL]),
        SysSocket 4, SysConnect 4 4001 0, SysSocket 5, SysConnect 5 4002 0,
        SysSocket 6, SysConnect 6 4003 0]) \<and>
   fst (main (example_env accept_all [stdout_eof_turn] (Some [0, 0, 0, 7])) example_argv) = Return 7 \<and>
   fst (main (example_env accept_all [stdout_eof_turn] (Some [255, 255, 255, 254])) example_argv) =
     Return (-2) \<and>
   fst (main (example_env accept_all [stdout_eof_turn] (Some [0, 0, 7])) example_argv) = Return 42 \<and>
   fst (main (example_env accept_all [stdout_eof_turn] None) example_argv) = Return 42"
  using exit_status_after_relay [OF startup_example relay_example, of "Some [0, 0, 0, 7]"]
    exit_status_after_relay [OF startup_example relay_example, of "Some [255, 255, 255, 254]"]
    exit_status_after_relay [OF startup_example relay_example, of "Some [0, 0, 7]"]
    exit_status_after_relay [OF startup_example relay_example, of "None"]
    startup_example [of "[stdout_eof_turn]" "Some [0, 0, 0, 7]"]
  by (simp add: example_env_def msg_to_int32_def)

end
